theory Spec2Isabelle
  imports Complex_Main
begin

section \<open>JavaScript values used by the invoice form\<close>

text \<open>
  A JavaScript number is a binary64 value: a finite number, one of the two zeros, one of
  the two infinities, or NaN. A finite value is kept as the rational it denotes;
  \<open>Num 0\<close> is the positive zero. Every arithmetic result is rounded to the nearest
  binary64 value, ties to the even significand, with overflow to an infinity and
  underflow through the subnormal range to a zero.
\<close>

datatype jsnum = Num rat | NegZero | PosInf | NegInf | NaN

text \<open>The number of binary digits of a positive integer.\<close>

function bit_length :: "int \<Rightarrow> int" where
  "bit_length n = (if n \<le> 0 then 0 else 1 + bit_length (n div 2))"
  by pat_completeness auto
termination
  by (relation "measure nat") auto

declare bit_length.simps [simp del]

text \<open>
  For a positive fraction \<open>p / d\<close>: the exponent \<open>e\<close> with
  \<open>2 ^ e \<le> p / d < 2 ^ (e + 1)\<close>.
\<close>

definition floor_log2 :: "int \<Rightarrow> int \<Rightarrow> int" where
  "floor_log2 p d =
     (if d \<le> p then bit_length (p div d) - 1
      else - bit_length ((d + p - 1) div p - 1))"

text \<open>The integer nearest to \<open>n / d\<close>, a tie going to the even one.\<close>

definition round_half_even :: "int \<Rightarrow> int \<Rightarrow> int" where
  "round_half_even n d =
     (let f = n div d; r = n mod d
      in if 2 * r < d then f else if d < 2 * r then f + 1
         else if even f then f else f + 1)"

text \<open>The value \<open>m * 2 ^ q\<close>.\<close>

definition scaled :: "int \<Rightarrow> int \<Rightarrow> rat" where
  "scaled m q =
     (if 0 \<le> q then of_int (m * 2 ^ nat q) else of_int m / of_int (2 ^ nat (- q)))"

text \<open>
  Rounding a rational to binary64. The significand has 53 bits; the unit in the last
  place is \<open>2 ^ (e - 52)\<close> and never below \<open>2 ^ (- 1074)\<close>; a magnitude that
  rounds to \<open>2 ^ 1024\<close> or lies above it becomes an infinity.
\<close>

definition round64 :: "rat \<Rightarrow> jsnum" where
  "round64 x =
     (if x = 0 then Num 0
      else
        let (p, d) = quotient_of \<bar>x\<bar>;
            e = floor_log2 p d
        in if 1024 \<le> e then (if x < 0 then NegInf else PosInf)
           else
             let q = max (e - 52) (- 1074);
                 m = (if 0 \<le> q then round_half_even p (d * 2 ^ nat q)
                      else round_half_even (p * 2 ^ nat (- q)) d)
             in if m = 0 then (if x < 0 then NegZero else Num 0)
                else if e = 1023 \<and> m = 2 ^ 53 then (if x < 0 then NegInf else PosInf)
                else Num (if x < 0 then - scaled m q else scaled m q))"

text \<open>
  Addition: NaN absorbs, opposite infinities give NaN, two negative zeros give the
  negative zero, an exact sum of zero is the positive zero, and every other sum of finite
  numbers is rounded.
\<close>

fun js_add :: "jsnum \<Rightarrow> jsnum \<Rightarrow> jsnum" where
  "js_add NaN y = NaN"
| "js_add x NaN = NaN"
| "js_add PosInf NegInf = NaN"
| "js_add NegInf PosInf = NaN"
| "js_add PosInf y = PosInf"
| "js_add x PosInf = PosInf"
| "js_add NegInf y = NegInf"
| "js_add x NegInf = NegInf"
| "js_add NegZero NegZero = NegZero"
| "js_add NegZero (Num b) = Num b"
| "js_add (Num a) NegZero = Num a"
| "js_add (Num a) (Num b) = (if a + b = 0 then Num 0 else round64 (a + b))"

fun js_neg :: "jsnum \<Rightarrow> jsnum" where
  "js_neg (Num a) = (if a = 0 then NegZero else Num (- a))"
| "js_neg NegZero = Num 0"
| "js_neg PosInf = NegInf"
| "js_neg NegInf = PosInf"
| "js_neg NaN = NaN"

text \<open>Subtraction is the addition of the negated number, rounded the same way.\<close>

definition js_sub :: "jsnum \<Rightarrow> jsnum \<Rightarrow> jsnum" where
  "js_sub x y = js_add x (js_neg y)"

text \<open>
  Truthiness of a number and of a string: the zeros and NaN are the falsy numbers, the
  empty string is the falsy string.
\<close>

definition truthy_num :: "jsnum \<Rightarrow> bool" where
  "truthy_num x = (x \<noteq> NaN \<and> x \<noteq> Num 0 \<and> x \<noteq> NegZero)"

definition truthy_str :: "string \<Rightarrow> bool" where
  "truthy_str s = (s \<noteq> [])"

text \<open>\<open>x || 0\<close> for a number that may be undefined.\<close>

definition or_zero :: "jsnum option \<Rightarrow> jsnum" where
  "or_zero x = (case x of None \<Rightarrow> Num 0 | Some v \<Rightarrow> if truthy_num v then v else Num 0)"

subsection \<open>parseFloat\<close>

text \<open>
  A string is a list of code units below 256, the Latin-1 range of the language's code
  units. The built-in \<open>parseFloat\<close>, after the language standard: leading white space
  and line terminators are skipped (in this range: tab, line feed, vertical tab, form
  feed, carriage return, space and the no-break space), then the longest prefix that is a
  decimal literal (optional sign, \<open>Infinity\<close>, or digits with an optional fraction and
  an optional exponent) is read and its value rounded to the nearest binary64 value, as
  the engines do; when there is no such prefix the result is NaN. A literal of value
  zero gives the zero of its sign.
\<close>

definition is_ws :: "char \<Rightarrow> bool" where
  "is_ws c =
     (c \<in> set [CHR 0x09, CHR 0x0A, CHR 0x0B, CHR 0x0C, CHR 0x0D, CHR 0x20, CHR 0xA0])"

definition is_digit :: "char \<Rightarrow> bool" where
  "is_digit c = (c \<in> set ''0123456789'')"

definition digit_val :: "char \<Rightarrow> int" where
  "digit_val c = of_char c - 48"

definition digits_val :: "string \<Rightarrow> int" where
  "digits_val ds = foldl (\<lambda>a c. 10 * a + digit_val c) 0 ds"

text \<open>The sign in front of a literal: whether it is negative, and the rest.\<close>

fun read_sign :: "string \<Rightarrow> bool \<times> string" where
  "read_sign [] = (False, [])"
| "read_sign (c # cs) =
     (if c = CHR ''-'' then (True, cs) else if c = CHR ''+'' then (False, cs)
      else (False, c # cs))"

text \<open>The exponent part, when one is there: \<open>e\<close> or \<open>E\<close>, a sign, at least one digit.\<close>

fun read_exponent :: "string \<Rightarrow> (bool \<times> int) option" where
  "read_exponent [] = None"
| "read_exponent (c # cs) =
     (if c = CHR ''e'' \<or> c = CHR ''E'' then
        (let (neg, r) = read_sign cs; ds = takeWhile is_digit r
         in if ds = [] then None else Some (neg, digits_val ds))
      else None)"

definition parseFloat :: "string \<Rightarrow> jsnum" where
  "parseFloat s =
     (let (neg, u) = read_sign (dropWhile is_ws s) in
      if take 8 u = ''Infinity'' then (if neg then NegInf else PosInf)
      else
        let ip = takeWhile is_digit u;
            r1 = dropWhile is_digit u;
            fp = (case r1 of [] \<Rightarrow> []
                  | c # r \<Rightarrow> if c = CHR ''.'' then takeWhile is_digit r else []);
            r2 = (case r1 of [] \<Rightarrow> []
                  | c # r \<Rightarrow> if c = CHR ''.'' then dropWhile is_digit r else r1)
        in if ip = [] \<and> fp = [] then NaN
           else if digits_val (ip @ fp) = 0 then (if neg then NegZero else Num 0)
           else
             let m = (of_int (digits_val (ip @ fp)) :: rat) / 10 ^ length fp;
                 v = (case read_exponent r2 of None \<Rightarrow> m
                      | Some (eneg, e) \<Rightarrow> if eneg then m / 10 ^ nat e else m * 10 ^ nat e)
             in round64 (if neg then - v else v))"

section \<open>Data of the invoice form\<close>

text \<open>
  \<open>MemoData\<close> with the properties the components read; all of them are strings.
\<close>

record memo =
  trips_memo_no :: string
  trip_operated_date1 :: string
  customers_name :: string
  trips_vehicle_no :: string
  trips_total_amt :: string
  trips_balance :: string

datatype InvoiceStatus = Draft | Finalized | Paid

text \<open>
  The form keeps a \<open>Partial<Invoice>\<close>: an object on which every property may be
  missing. The property \<open>id\<close> is called \<open>invoice_id\<close> here.
\<close>

record invoice =
  invoice_id :: "nat option"
  invoice_no :: "string option"
  invoice_date :: "string option"
  customer_name :: "string option"
  memo_nos :: "string list option"
  total_amount :: "jsnum option"
  amount_paid :: "jsnum option"
  balance :: "jsnum option"
  status :: "InvoiceStatus option"

text \<open>Truthiness of the optional properties the handlers test.\<close>

definition truthy_id :: "nat option \<Rightarrow> bool" where
  "truthy_id i = (case i of None \<Rightarrow> False | Some n \<Rightarrow> n \<noteq> 0)"

definition truthy_ostr :: "string option \<Rightarrow> bool" where
  "truthy_ostr s = (case s of None \<Rightarrow> False | Some t \<Rightarrow> truthy_str t)"

text \<open>\<open>invoice.memo_nos || []\<close>\<close>

definition memo_nos_or_empty :: "invoice \<Rightarrow> string list" where
  "memo_nos_or_empty iv = (case memo_nos iv of None \<Rightarrow> [] | Some ms \<Rightarrow> ms)"

section \<open>The collaborator\<close>

text \<open>
  The data service the components import is not part of the sources under study. The
  components are modelled against any collaborator: each operation either rejects
  (\<open>None\<close>, \<open>False\<close> for the writes) or resolves with a value. \<open>getInvoiceById\<close>
  may resolve with no invoice. Customers are kept by name, the only property read.
\<close>

record collab =
  getCustomers :: "string list option"
  getMemos :: "memo list option"
  getInvoices :: "invoice list option"
  getInvoiceById :: "nat \<Rightarrow> invoice option option"
  getUninvoicedMemosForCustomer :: "string option \<Rightarrow> memo list option"
  generateNewInvoiceNumber :: "string option"
  addInvoice :: "invoice \<Rightarrow> bool"
  updateInvoice :: "invoice \<Rightarrow> bool"
  deleteMemo :: "string \<Rightarrow> bool"

section \<open>The invoice form\<close>

datatype toast_kind = Success | Error

datatype store_write = AddInvoice invoice | UpdateInvoice invoice

text \<open>
  The component's state hooks, together with what the component does to the outside:
  the notices it raises, the writes it sends to the collaborator, and how often it called
  \<open>onSaveSuccess\<close> and \<open>onCancel\<close>.
\<close>

record form =
  invoice :: invoice
  availableMemos :: "memo list"
  allMemos :: "string \<rightharpoonup> memo"
  customers :: "string list"
  isLoading :: bool
  isSaving :: bool
  toasts :: "(string \<times> toast_kind) list"
  writes :: "store_write list"
  onSaveSuccess_calls :: nat
  onCancel_calls :: nat

text \<open>\<open>initialInvoiceState\<close>; the date is today's, given from outside.\<close>

definition initialInvoiceState :: "string \<Rightarrow> invoice" where
  "initialInvoiceState today =
     \<lparr>invoice_id = None, invoice_no = Some [], invoice_date = Some today,
      customer_name = Some [], memo_nos = Some [], total_amount = Some (Num 0),
      amount_paid = Some (Num 0), balance = Some (Num 0), status = Some Draft\<rparr>"

definition initial_form :: "string \<Rightarrow> form" where
  "initial_form today =
     \<lparr>invoice = initialInvoiceState today, availableMemos = [], allMemos = Map.empty,
      customers = [], isLoading = True, isSaving = False, toasts = [], writes = [],
      onSaveSuccess_calls = 0, onCancel_calls = 0\<rparr>"

definition addToast :: "string \<Rightarrow> toast_kind \<Rightarrow> form \<Rightarrow> form" where
  "addToast msg k s = s\<lparr>toasts := toasts s @ [(msg, k)]\<rparr>"

subsection \<open>calculateTotals\<close>

text \<open>\<open>memo?.trips_total_amt || '0'\<close>\<close>

definition amt_or_0 :: "memo option \<Rightarrow> string" where
  "amt_or_0 mo =
     (case mo of None \<Rightarrow> ''0''
      | Some m \<Rightarrow> if truthy_str (trips_total_amt m) then trips_total_amt m else ''0'')"

definition calculateTotals :: "form \<Rightarrow> form" where
  "calculateTotals s =
     (let total = or_zero (map_option
                    (foldl (\<lambda>sum memoNo. js_add sum (parseFloat (amt_or_0 (allMemos s memoNo))))
                       (Num 0))
                    (memo_nos (invoice s)));
          amountPaid = or_zero (amount_paid (invoice s));
          balance = js_sub total amountPaid
      in s\<lparr>invoice := (invoice s)\<lparr>total_amount := Some total, balance := Some balance\<rparr>\<rparr>)"

subsection \<open>loadInitialData\<close>

text \<open>The lookup table built from the memo list: a later memo replaces an earlier one.\<close>

definition memosMap :: "memo list \<Rightarrow> (string \<rightharpoonup> memo)" where
  "memosMap ms = foldl (\<lambda>m x. m(trips_memo_no x \<mapsto> x)) Map.empty ms"

definition load_failed :: "form \<Rightarrow> form" where
  "load_failed s = addToast ''Failed to load initial data.'' Error s"

text \<open>
  The body of the \<open>try\<close> block: state set before a rejection stays set, the rejection
  adds the failure notice. The waiting between the requests is not modelled: the load is
  one step.
\<close>

definition load_body :: "collab \<Rightarrow> string \<Rightarrow> nat option \<Rightarrow> form \<Rightarrow> form" where
  "load_body c today invoiceIdToLoad s =
     (case (getCustomers c, getMemos c) of
        (Some customersData, Some memosData) \<Rightarrow>
          (let s1 = s\<lparr>customers := customersData, allMemos := memosMap memosData\<rparr> in
           case (if truthy_id invoiceIdToLoad then invoiceIdToLoad else None) of
             Some n \<Rightarrow>
               (case getInvoiceById c n of
                  None \<Rightarrow> load_failed s1
                | Some None \<Rightarrow>
                    (addToast ''Invoice not found.'' Error s1)
                      \<lparr>onCancel_calls := Suc (onCancel_calls s1)\<rparr>
                | Some (Some loadedInvoice) \<Rightarrow>
                    (let s2 = s1\<lparr>invoice := loadedInvoice\<rparr> in
                     case getUninvoicedMemosForCustomer c (customer_name loadedInvoice) of
                       None \<Rightarrow> load_failed s2
                     | Some uninvoicedMemos \<Rightarrow> s2\<lparr>availableMemos := uninvoicedMemos\<rparr>))
           | None \<Rightarrow>
               (case generateNewInvoiceNumber c of
                  None \<Rightarrow> load_failed s1
                | Some newInvoiceNo \<Rightarrow>
                    s1\<lparr>invoice := (initialInvoiceState today)\<lparr>invoice_no := Some newInvoiceNo\<rparr>\<rparr>))
      | _ \<Rightarrow> load_failed s)"

definition loadInitialData :: "collab \<Rightarrow> string \<Rightarrow> nat option \<Rightarrow> form \<Rightarrow> form" where
  "loadInitialData c today invoiceIdToLoad s =
     (load_body c today invoiceIdToLoad (s\<lparr>isLoading := True\<rparr>))\<lparr>isLoading := False\<rparr>"

subsection \<open>Handlers\<close>

definition handleCustomerChange :: "collab \<Rightarrow> string \<Rightarrow> form \<Rightarrow> form" where
  "handleCustomerChange c customerName s =
     (if truthy_id (invoice_id (invoice s)) then s
      else
        let s1 = s\<lparr>invoice := (invoice s)\<lparr>customer_name := Some customerName,
                                            memo_nos := Some []\<rparr>\<rparr>
        in if truthy_str customerName then
             (case getUninvoicedMemosForCustomer c (Some customerName) of
                None \<Rightarrow> s1
              | Some memos \<Rightarrow> s1\<lparr>availableMemos := memos\<rparr>)
           else s1\<lparr>availableMemos := []\<rparr>)"

definition handleMemoSelection :: "string \<Rightarrow> bool \<Rightarrow> form \<Rightarrow> form" where
  "handleMemoSelection memoNo isSelected s =
     (let currentMemos = memo_nos_or_empty (invoice s);
          newMemos = (if isSelected then currentMemos @ [memoNo]
                      else filter (\<lambda>m. m \<noteq> memoNo) currentMemos)
      in s\<lparr>invoice := (invoice s)\<lparr>memo_nos := Some newMemos\<rparr>\<rparr>)"

definition validation_fails :: "invoice \<Rightarrow> bool" where
  "validation_fails iv =
     (\<not> truthy_ostr (customer_name iv) \<or> \<not> truthy_ostr (invoice_date iv)
      \<or> length (memo_nos_or_empty iv) = 0)"

definition handleSave :: "collab \<Rightarrow> form \<Rightarrow> form" where
  "handleSave c s =
     (if validation_fails (invoice s) then
        addToast ''Please select a customer, date, and at least one memo.'' Error s
      else
        let s1 = s\<lparr>isSaving := True\<rparr>;
            s2 = (if truthy_id (invoice_id (invoice s)) then
                    (let s' = s1\<lparr>writes := writes s1 @ [UpdateInvoice (invoice s)]\<rparr> in
                     if updateInvoice c (invoice s) then
                       (addToast ''Invoice updated successfully!'' Success s')
                         \<lparr>onSaveSuccess_calls := Suc (onSaveSuccess_calls s')\<rparr>
                     else addToast ''Failed to save invoice.'' Error s')
                  else
                    (let s' = s1\<lparr>writes := writes s1 @ [AddInvoice (invoice s)]\<rparr> in
                     if addInvoice c (invoice s) then
                       (addToast ''Invoice created successfully!'' Success s')
                         \<lparr>onSaveSuccess_calls := Suc (onSaveSuccess_calls s')\<rparr>
                     else addToast ''Failed to save invoice.'' Error s'))
        in s2\<lparr>isSaving := False\<rparr>)"

text \<open>The \<open>onChange\<close> handlers written inline in the markup.\<close>

definition amount_paid_onChange :: "string \<Rightarrow> form \<Rightarrow> form" where
  "amount_paid_onChange v s =
     s\<lparr>invoice := (invoice s)\<lparr>amount_paid := Some (or_zero (Some (parseFloat v)))\<rparr>\<rparr>"

definition invoice_date_onChange :: "string \<Rightarrow> form \<Rightarrow> form" where
  "invoice_date_onChange v s = s\<lparr>invoice := (invoice s)\<lparr>invoice_date := Some v\<rparr>\<rparr>"

definition status_onChange :: "InvoiceStatus \<Rightarrow> form \<Rightarrow> form" where
  "status_onChange v s = s\<lparr>invoice := (invoice s)\<lparr>status := Some v\<rparr>\<rparr>"

subsection \<open>What the form shows\<close>

text \<open>The body of the \<open>forEach\<close> that completes the list on display.\<close>

definition push_missing :: "(string \<rightharpoonup> memo) \<Rightarrow> memo list \<Rightarrow> string \<Rightarrow> memo list" where
  "push_missing lookup dm memoNo =
     (if \<not> list_ex (\<lambda>m. trips_memo_no m = memoNo) dm then
        (case lookup memoNo of None \<Rightarrow> dm | Some x \<Rightarrow> dm @ [x])
      else dm)"

definition displayMemos :: "form \<Rightarrow> memo list" where
  "displayMemos s =
     (if truthy_id (invoice_id (invoice s)) then
        (case memo_nos (invoice s) of
           None \<Rightarrow> availableMemos s
         | Some ms \<Rightarrow> foldl (push_missing (allMemos s)) (availableMemos s) ms)
      else availableMemos s)"

text \<open>The \<open>checked\<close> attribute of a row's box: \<open>invoice.memo_nos?.includes(...)\<close>.\<close>

definition checked :: "form \<Rightarrow> memo \<Rightarrow> bool" where
  "checked s x =
     (case memo_nos (invoice s) of None \<Rightarrow> False | Some ms \<Rightarrow> trips_memo_no x \<in> set ms)"

subsection \<open>Events and the totals effect\<close>

text \<open>What the user can do on the rendered form.\<close>

datatype event =
    CustomerChange string
  | MemoSelection string bool
  | AmountPaidInput string
  | InvoiceDateInput string
  | StatusSelect InvoiceStatus
  | SaveClick

fun handle :: "collab \<Rightarrow> event \<Rightarrow> form \<Rightarrow> form" where
  "handle c (CustomerChange name) s = handleCustomerChange c name s"
| "handle c (MemoSelection memoNo isSelected) s = handleMemoSelection memoNo isSelected s"
| "handle c (AmountPaidInput v) s = amount_paid_onChange v s"
| "handle c (InvoiceDateInput v) s = invoice_date_onChange v s"
| "handle c (StatusSelect v) s = status_onChange v s"
| "handle c SaveClick s = handleSave c s"

text \<open>
  \<open>calculateTotals\<close> is an effect with the dependencies \<open>invoice.memo_nos\<close>,
  \<open>invoice.amount_paid\<close> and \<open>allMemos\<close>: it runs after the first render and after
  every render in which one of them is a different value. A handler that stores a newly
  built array has changed \<open>memo_nos\<close>, whatever the array holds; numbers are compared
  by value.
\<close>

fun totals_deps_changed :: "event \<Rightarrow> form \<Rightarrow> form \<Rightarrow> bool" where
  "totals_deps_changed (CustomerChange name) s s' = (\<not> truthy_id (invoice_id (invoice s)))"
| "totals_deps_changed (MemoSelection memoNo isSelected) s s' = True"
| "totals_deps_changed (AmountPaidInput v) s s' =
     (amount_paid (invoice s') \<noteq> amount_paid (invoice s))"
| "totals_deps_changed ev s s' = False"

definition dispatch :: "collab \<Rightarrow> event \<Rightarrow> form \<Rightarrow> form" where
  "dispatch c ev s =
     (let s' = handle c ev s in if totals_deps_changed ev s s' then calculateTotals s' else s')"

text \<open>
  Mounting: the first render runs the effect on the initial state, the load follows, and
  the effect runs again when the load has stored a new lookup table.
\<close>

definition mount :: "collab \<Rightarrow> string \<Rightarrow> nat option \<Rightarrow> form" where
  "mount c today invoiceIdToLoad =
     (let s = loadInitialData c today invoiceIdToLoad (calculateTotals (initial_form today))
      in if getCustomers c \<noteq> None \<and> getMemos c \<noteq> None then calculateTotals s else s)"

text \<open>
  What the rendered form lets the user do: a row's box exists for the displayed memos
  only and reports the opposite of what it shows; the save button is off while saving.
\<close>

fun enabled :: "event \<Rightarrow> form \<Rightarrow> bool" where
  "enabled (MemoSelection memoNo isSelected) s =
     (\<not> isLoading s \<and>
      list_ex (\<lambda>x. trips_memo_no x = memoNo \<and> isSelected = (\<not> checked s x)) (displayMemos s))"
| "enabled SaveClick s = (\<not> isLoading s \<and> \<not> isSaving s)"
| "enabled ev s = (\<not> isLoading s)"

inductive reachable :: "collab \<Rightarrow> string \<Rightarrow> nat option \<Rightarrow> form \<Rightarrow> bool"
  for c :: collab and today :: string and invoiceIdToLoad :: "nat option" where
  mounted: "reachable c today invoiceIdToLoad (mount c today invoiceIdToLoad)"
| step: "reachable c today invoiceIdToLoad s \<Longrightarrow> enabled ev s
         \<Longrightarrow> reachable c today invoiceIdToLoad (dispatch c ev s)"

text \<open>A run of events from a state, for concrete sessions.\<close>

definition run_events :: "collab \<Rightarrow> event list \<Rightarrow> form \<Rightarrow> form" where
  "run_events c evs s = foldl (\<lambda>t ev. dispatch c ev t) s evs"

subsection \<open>The totals as the specification words them\<close>

text \<open>
  The amount a memo number stands for: zero when the lookup has no such memo or the memo
  has no amount, the parsed amount otherwise.
\<close>

definition memo_amount :: "(string \<rightharpoonup> memo) \<Rightarrow> string \<Rightarrow> jsnum" where
  "memo_amount lookup n =
     (case lookup n of None \<Rightarrow> Num 0
      | Some m \<Rightarrow> if trips_total_amt m = [] then Num 0 else parseFloat (trips_total_amt m))"

text \<open>The sum of the selection, added up from zero in the order of the selection.\<close>

definition selected_sum :: "form \<Rightarrow> jsnum" where
  "selected_sum s =
     foldl js_add (Num 0) (map (memo_amount (allMemos s)) (memo_nos_or_empty (invoice s)))"

text \<open>Every amount of the selection is a finite number.\<close>

definition finite_amounts :: "form \<Rightarrow> bool" where
  "finite_amounts s =
     list_all (\<lambda>n. case memo_amount (allMemos s) n of
                      Num a \<Rightarrow> True | NegZero \<Rightarrow> True | _ \<Rightarrow> False)
       (memo_nos_or_empty (invoice s))"

text \<open>
  What a recomputation leaves in the invoice: the sum of the selection, or zero when that
  sum is NaN (or a zero); and the balance against the amount paid, a missing or falsy
  amount paid counting as zero.
\<close>

definition recomputed_total :: "form \<Rightarrow> jsnum" where
  "recomputed_total s = (if truthy_num (selected_sum s) then selected_sum s else Num 0)"

definition totals_ok :: "form \<Rightarrow> bool" where
  "totals_ok s =
     (total_amount (invoice s) = Some (recomputed_total s) \<and>
      balance (invoice s) =
        Some (js_sub (recomputed_total s) (or_zero (amount_paid (invoice s)))))"

text \<open>What the amount-paid input stores for a text: the parsed number, or zero.\<close>

definition stored_amount :: "string \<Rightarrow> jsnum" where
  "stored_amount v = (if truthy_num (parseFloat v) then parseFloat v else Num 0)"

subsection \<open>Validation as the specification words it\<close>

text \<open>
  The specification's \<open>validateForSave\<close>: a save needs a non-empty customer name, a
  non-empty date and at least one selected memo, and fails with the reason otherwise.
\<close>

datatype ValidationError = missingCustomer | missingDate | noMemosSelected

definition validateForSave :: "invoice \<Rightarrow> ValidationError option" where
  "validateForSave iv =
     (if \<not> truthy_ostr (customer_name iv) then Some missingCustomer
      else if \<not> truthy_ostr (invoice_date iv) then Some missingDate
      else if memo_nos_or_empty iv = [] then Some noMemosSelected
      else None)"

section \<open>The ledger\<close>

text \<open>
  Modelled from the spec: the data service (\<open>services/googleScriptMock\<close>) is missing
  from the sources. The specification describes it as a store of customers, memos and
  invoices with read operations over them; \<open>listUninvoicedMemosForCustomer\<close> is the
  collaborator-side filter that returns the customer's memos whose number is in no
  invoice's \<open>memo_nos\<close>, and \<open>getInvoiceById\<close> returns the invoice with that
  identifier or none. The store does not change while a form is open; the writes are
  accepted.
\<close>

record store =
  store_customers :: "string list"
  store_memos :: "memo list"
  store_invoices :: "invoice list"
  store_next_invoice_no :: string

definition linked_numbers :: "store \<Rightarrow> string list" where
  "linked_numbers st = concat (map memo_nos_or_empty (store_invoices st))"

definition listUninvoicedMemosForCustomer :: "store \<Rightarrow> string option \<Rightarrow> memo list" where
  "listUninvoicedMemosForCustomer st customerName =
     filter (\<lambda>x. Some (customers_name x) = customerName
                 \<and> trips_memo_no x \<notin> set (linked_numbers st))
       (store_memos st)"

definition ledger :: "store \<Rightarrow> collab" where
  "ledger st =
     \<lparr>getCustomers = Some (store_customers st),
      getMemos = Some (store_memos st),
      getInvoices = Some (store_invoices st),
      getInvoiceById = (\<lambda>i. Some (find (\<lambda>v. invoice_id v = Some i) (store_invoices st))),
      getUninvoicedMemosForCustomer = (\<lambda>n. Some (listUninvoicedMemosForCustomer st n)),
      generateNewInvoiceNumber = Some (store_next_invoice_no st),
      addInvoice = (\<lambda>v. True),
      updateInvoice = (\<lambda>v. True),
      deleteMemo = (\<lambda>n. True)\<rparr>"



subsection \<open>Example data\<close>

definition memo_M1 :: memo where
  "memo_M1 = \<lparr>trips_memo_no = ''M1'', trip_operated_date1 = ''2024-01-05'',
     customers_name = ''Acme'', trips_vehicle_no = ''TN01'', trips_total_amt = ''500'',
     trips_balance = ''500''\<rparr>"

definition memo_M2 :: memo where
  "memo_M2 = \<lparr>trips_memo_no = ''M2'', trip_operated_date1 = ''2024-01-06'',
     customers_name = ''Acme'', trips_vehicle_no = ''TN02'', trips_total_amt = ''300'',
     trips_balance = ''300''\<rparr>"

definition memo_M3 :: memo where
  "memo_M3 = \<lparr>trips_memo_no = ''M3'', trip_operated_date1 = ''2024-01-07'',
     customers_name = ''Acme'', trips_vehicle_no = ''TN03'', trips_total_amt = ''abc'',
     trips_balance = ''0''\<rparr>"

definition invoice_A :: invoice where
  "invoice_A = \<lparr>invoice_id = Some 1, invoice_no = Some ''INV-1'',
     invoice_date = Some ''2024-02-01'', customer_name = Some ''Acme'',
     memo_nos = Some [''M1''], total_amount = Some (Num 500), amount_paid = Some (Num 0),
     balance = Some (Num 500), status = Some Draft\<rparr>"

definition invoice_B :: invoice where
  "invoice_B = \<lparr>invoice_id = Some 2, invoice_no = Some ''INV-2'',
     invoice_date = Some ''2024-02-02'', customer_name = Some ''Acme'',
     memo_nos = Some [''M2''], total_amount = Some (Num 300), amount_paid = Some (Num 0),
     balance = Some (Num 300), status = Some Draft\<rparr>"

text \<open>A store with no invoice yet, and one with two invoices.\<close>

definition fresh_store :: store where
  "fresh_store = \<lparr>store_customers = [''Acme'', ''Beta''],
     store_memos = [memo_M1, memo_M2, memo_M3], store_invoices = [],
     store_next_invoice_no = ''INV-1''\<rparr>"

definition billed_store :: store where
  "billed_store = \<lparr>store_customers = [''Acme'', ''Beta''],
     store_memos = [memo_M1, memo_M2, memo_M3], store_invoices = [invoice_A, invoice_B],
     store_next_invoice_no = ''INV-3''\<rparr>"

text \<open>Whether each event of a run is one the form offers when its turn comes.\<close>

fun all_enabled :: "collab \<Rightarrow> event list \<Rightarrow> form \<Rightarrow> bool" where
  "all_enabled c [] s = True"
| "all_enabled c (ev # evs) s = (enabled ev s \<and> all_enabled c evs (dispatch c ev s))"

text \<open>Sessions on the example data: a new invoice for the first store.\<close>

definition new_session :: "event list \<Rightarrow> form" where
  "new_session evs =
     run_events (ledger fresh_store) evs (mount (ledger fresh_store) ''2024-03-01'' None)"

text \<open>The ledger of a store whose writes are rejected.\<close>

definition failing_ledger :: "store \<Rightarrow> collab" where
  "failing_ledger st = (ledger st)\<lparr>addInvoice := (\<lambda>v. False), updateInvoice := (\<lambda>v. False)\<rparr>"


section \<open>The print effect of the invoice form\<close>

text \<open>
  The window as the effect sees it: a clock in milliseconds, the pending timers (handle,
  due time, callback), whether \<open>handleAfterPrint\<close> is registered for \<open>afterprint\<close>,
  the handle the effect keeps in \<open>printTimer\<close>, and how often \<open>window.print\<close> and
  \<open>onPrinted\<close> were called. The effect sets two callbacks on timers: the one that
  prints, and the one that calls \<open>onPrinted\<close>.
\<close>

datatype timer_callback = PrintCallback | OnPrintedCallback

record window =
  now :: nat
  timers :: "(nat \<times> nat \<times> timer_callback) list"
  next_handle :: nat
  afterprint_listener :: bool
  printTimer :: "nat option"
  print_calls :: nat
  onPrinted_calls :: nat

definition setTimeout :: "timer_callback \<Rightarrow> nat \<Rightarrow> window \<Rightarrow> window" where
  "setTimeout cb delay w =
     w\<lparr>timers := timers w @ [(next_handle w, now w + delay, cb)],
       next_handle := Suc (next_handle w)\<rparr>"

definition clearTimeout :: "nat \<Rightarrow> window \<Rightarrow> window" where
  "clearTimeout h w = w\<lparr>timers := filter (\<lambda>(i, due, cb). i \<noteq> h) (timers w)\<rparr>"

definition fresh_window :: "nat \<Rightarrow> window" where
  "fresh_window t =
     \<lparr>now = t, timers = [], next_handle = 0, afterprint_listener = False,
      printTimer = None, print_calls = 0, onPrinted_calls = 0\<rparr>"

text \<open>The effect body, run when its dependencies are \<open>isLoading\<close> and \<open>printOnLoad\<close>.\<close>

definition print_effect :: "bool \<Rightarrow> bool \<Rightarrow> window \<Rightarrow> window" where
  "print_effect loading printOnLoad w =
     (if \<not> loading \<and> printOnLoad then
        (setTimeout PrintCallback 300 (w\<lparr>afterprint_listener := True\<rparr>))
          \<lparr>printTimer := Some (next_handle w)\<rparr>
      else w)"

text \<open>The cleanup the effect returns; there is none when the body did nothing.\<close>

definition print_cleanup :: "window \<Rightarrow> window" where
  "print_cleanup w =
     (case printTimer w of
        None \<Rightarrow> w
      | Some h \<Rightarrow> (clearTimeout h w)\<lparr>afterprint_listener := False\<rparr>)"

definition handleAfterPrint :: "window \<Rightarrow> window" where
  "handleAfterPrint w = setTimeout OnPrintedCallback 100 (w\<lparr>afterprint_listener := False\<rparr>)"

fun run_callback :: "timer_callback \<Rightarrow> window \<Rightarrow> window" where
  "run_callback PrintCallback w = w\<lparr>print_calls := Suc (print_calls w)\<rparr>"
| "run_callback OnPrintedCallback w = w\<lparr>onPrinted_calls := Suc (onPrinted_calls w)\<rparr>"

text \<open>
  What happens to the window: the platform raises \<open>afterprint\<close>, time passes (the
  timers that fall due run, earliest first), or the component is torn down.
\<close>

datatype print_event = AfterPrint | Elapse nat | Teardown

definition elapse :: "nat \<Rightarrow> window \<Rightarrow> window" where
  "elapse d w =
     (let t = now w + d;
          ripe = filter (\<lambda>(i, due, cb). due \<le> t) (timers w);
          rest = filter (\<lambda>(i, due, cb). \<not> due \<le> t) (timers w)
      in foldl (\<lambda>v (i, due, cb). run_callback cb v) (w\<lparr>now := t, timers := rest\<rparr>)
           (sort_key (\<lambda>(i, due, cb). due) ripe))"

fun print_step :: "print_event \<Rightarrow> window \<Rightarrow> window" where
  "print_step AfterPrint w = (if afterprint_listener w then handleAfterPrint w else w)"
| "print_step (Elapse d) w = elapse d w"
| "print_step Teardown w = print_cleanup w"

definition print_run :: "print_event list \<Rightarrow> window \<Rightarrow> window" where
  "print_run es w = foldl (\<lambda>v e. print_step e v) w es"

text \<open>The time a run of events takes, and the timers that will call \<open>onPrinted\<close>.\<close>

fun elapsed :: "print_event list \<Rightarrow> nat" where
  "elapsed [] = 0"
| "elapsed (Elapse d # es) = d + elapsed es"
| "elapsed (e # es) = elapsed es"

definition pending_onPrinted :: "window \<Rightarrow> (nat \<times> nat \<times> timer_callback) list" where
  "pending_onPrinted w = filter (\<lambda>(i, due, cb). cb = OnPrintedCallback) (timers w)"

text \<open>The form opened for download, its load complete, at time \<open>t\<close>.\<close>

definition download_mounted :: "nat \<Rightarrow> window" where
  "download_mounted t = print_effect False True (fresh_window t)"

section \<open>The memo list\<close>

text \<open>
  The state hooks of \<open>MemoCRUD\<close>, its notices, and what it does to the outside: the
  numbers it asked the collaborator to delete and the numbers it passed to
  \<open>onEditMemo\<close> and \<open>onDownloadMemo\<close>. The entries of the invoicing map are the
  \<open>invoice_no\<close> properties, which an invoice object may lack.
\<close>

record memo_crud =
  memos :: "memo list"
  invoiceMap :: "string \<rightharpoonup> string option"
  list_isLoading :: bool
  searchTerm :: string
  isDeleteConfirmOpen :: bool
  memoToDelete :: "memo option"
  isSubmitting :: bool
  list_toasts :: "(string \<times> toast_kind) list"
  deleteMemo_calls :: "string list"
  onEditMemo_calls :: "string list"
  onDownloadMemo_calls :: "string list"

definition initial_memo_crud :: memo_crud where
  "initial_memo_crud =
     \<lparr>memos = [], invoiceMap = Map.empty, list_isLoading = True, searchTerm = [],
      isDeleteConfirmOpen = False, memoToDelete = None, isSubmitting = False,
      list_toasts = [], deleteMemo_calls = [], onEditMemo_calls = [],
      onDownloadMemo_calls = []\<rparr>"

definition list_addToast :: "string \<Rightarrow> toast_kind \<Rightarrow> memo_crud \<Rightarrow> memo_crud" where
  "list_addToast msg k s = s\<lparr>list_toasts := list_toasts s @ [(msg, k)]\<rparr>"

text \<open>
  \<open>Array.prototype.sort\<close> with a comparator: a stable sort, here by insertion. The
  comparator of the list is \<open>localeCompare\<close>, which the platform provides; it is a
  parameter.
\<close>

fun insert_by :: "('a \<Rightarrow> 'a \<Rightarrow> int) \<Rightarrow> 'a \<Rightarrow> 'a list \<Rightarrow> 'a list" where
  "insert_by cmp x [] = [x]"
| "insert_by cmp x (y # ys) = (if cmp x y \<le> 0 then x # y # ys else y # insert_by cmp x ys)"

definition sort_by :: "('a \<Rightarrow> 'a \<Rightarrow> int) \<Rightarrow> 'a list \<Rightarrow> 'a list" where
  "sort_by cmp xs = foldr (insert_by cmp) xs []"

text \<open>
  The two nested \<open>forEach\<close> loops of \<open>fetchData\<close>: a later invoice replaces the entry
  of an earlier one; an invoice object without \<open>memo_nos\<close> makes the inner call throw.
\<close>

definition link_invoice ::
  "(string \<rightharpoonup> string option) option \<Rightarrow> invoice \<Rightarrow> (string \<rightharpoonup> string option) option" where
  "link_invoice acc iv =
     (case acc of None \<Rightarrow> None
      | Some m \<Rightarrow>
          (case memo_nos iv of None \<Rightarrow> None
           | Some ns \<Rightarrow> Some (foldl (\<lambda>m' memoNo. m'(memoNo \<mapsto> invoice_no iv)) m ns)))"

definition newInvoiceMap :: "invoice list \<Rightarrow> (string \<rightharpoonup> string option) option" where
  "newInvoiceMap invoiceData = foldl link_invoice (Some Map.empty) invoiceData"

definition fetch_failed :: "memo_crud \<Rightarrow> memo_crud" where
  "fetch_failed s = list_addToast ''Failed to fetch memo and invoice data.'' Error s"

definition fetchData :: "(string \<Rightarrow> string \<Rightarrow> int) \<Rightarrow> collab \<Rightarrow> memo_crud \<Rightarrow> memo_crud" where
  "fetchData localeCompare c s =
     (let s1 = s\<lparr>list_isLoading := True\<rparr>;
          s2 = (case (getMemos c, getInvoices c) of
                  (Some memoData, Some invoiceData) \<Rightarrow>
                    (case newInvoiceMap invoiceData of
                       None \<Rightarrow> fetch_failed s1
                     | Some m \<Rightarrow>
                         s1\<lparr>invoiceMap := m,
                            memos := sort_by (\<lambda>a b. localeCompare (trips_memo_no b)
                                                      (trips_memo_no a)) memoData\<rparr>)
                | _ \<Rightarrow> fetch_failed s1)
      in s2\<lparr>list_isLoading := False\<rparr>)"

text \<open>
  The search box: \<open>toLowerCase\<close> on the code units below 256 (the letters A to Z and
  the accented capitals from 0xC0 to 0xDE, the multiplication sign apart, move up by 32),
  and \<open>String.prototype.includes\<close> under the name \<open>str_includes\<close>.
\<close>

definition toLowerCase :: "string \<Rightarrow> string" where
  "toLowerCase t =
     map (\<lambda>c. let n = (of_char c :: nat)
               in if (65 \<le> n \<and> n \<le> 90) \<or> (192 \<le> n \<and> n \<le> 222 \<and> n \<noteq> 215)
                  then char_of (n + 32) else c) t"

fun str_includes :: "string \<Rightarrow> string \<Rightarrow> bool" where
  "str_includes [] p = (p = [])"
| "str_includes (c # cs) p = (take (length p) (c # cs) = p \<or> str_includes cs p)"

definition filteredData :: "memo_crud \<Rightarrow> memo list" where
  "filteredData s =
     (if \<not> truthy_str (searchTerm s) then memos s
      else filter (\<lambda>x. str_includes (toLowerCase (trips_memo_no x)) (toLowerCase (searchTerm s))
                      \<or> str_includes (toLowerCase (customers_name x)) (toLowerCase (searchTerm s)))
             (memos s))"

text \<open>A row: \<open>invoiceMap.get(...)\<close>, \<open>isInvoiced = !!invoiceNo\<close>, and the two buttons.\<close>

definition row_invoiceNo :: "memo_crud \<Rightarrow> memo \<Rightarrow> string option" where
  "row_invoiceNo s x = (case invoiceMap s (trips_memo_no x) of None \<Rightarrow> None | Some v \<Rightarrow> v)"

definition isInvoiced :: "memo_crud \<Rightarrow> memo \<Rightarrow> bool" where
  "isInvoiced s x = truthy_ostr (row_invoiceNo s x)"

definition edit_disabled :: "memo_crud \<Rightarrow> memo \<Rightarrow> bool" where
  "edit_disabled s x = isInvoiced s x"

definition edit_title :: "memo_crud \<Rightarrow> memo \<Rightarrow> string" where
  "edit_title s x =
     (if isInvoiced s x then ''Cannot edit a memo that is part of an invoice.''
      else ''Edit Memo'')"

definition delete_disabled :: "memo_crud \<Rightarrow> memo \<Rightarrow> bool" where
  "delete_disabled s x = isInvoiced s x"

definition delete_title :: "memo_crud \<Rightarrow> memo \<Rightarrow> string" where
  "delete_title s x =
     (if isInvoiced s x then ''Cannot delete a memo that is part of an invoice.''
      else ''Delete Memo'')"

definition row_rendered :: "memo_crud \<Rightarrow> memo \<Rightarrow> bool" where
  "row_rendered s x = (\<not> list_isLoading s \<and> x \<in> set (filteredData s))"

definition openDeleteConfirmation :: "memo \<Rightarrow> memo_crud \<Rightarrow> memo_crud" where
  "openDeleteConfirmation x s = s\<lparr>memoToDelete := Some x, isDeleteConfirmOpen := True\<rparr>"

definition closeDeleteConfirmation :: "memo_crud \<Rightarrow> memo_crud" where
  "closeDeleteConfirmation s = s\<lparr>memoToDelete := None, isDeleteConfirmOpen := False\<rparr>"

definition handleDelete :: "(string \<Rightarrow> string \<Rightarrow> int) \<Rightarrow> collab \<Rightarrow> memo_crud \<Rightarrow> memo_crud" where
  "handleDelete localeCompare c s =
     (case memoToDelete s of
        None \<Rightarrow> s
      | Some x \<Rightarrow>
          (let s1 = s\<lparr>isSubmitting := True,
                      deleteMemo_calls := deleteMemo_calls s @ [trips_memo_no x]\<rparr>;
               s2 = (if deleteMemo c (trips_memo_no x) then
                       fetchData localeCompare c
                         (list_addToast ''Memo deleted successfully'' Success s1)
                     else list_addToast ''Failed to delete memo'' Error s1)
           in closeDeleteConfirmation (s2\<lparr>isSubmitting := False\<rparr>)))"

text \<open>
  The clicks. A disabled button raises no click, and a button that is not rendered
  cannot be pressed.
\<close>

datatype list_event =
    SearchInput string
  | EditClick memo
  | DownloadClick memo
  | DeleteClick memo
  | ConfirmDeleteClick
  | CancelDeleteClick

fun list_step ::
  "(string \<Rightarrow> string \<Rightarrow> int) \<Rightarrow> collab \<Rightarrow> list_event \<Rightarrow> memo_crud \<Rightarrow> memo_crud" where
  "list_step lc c (SearchInput t) s = s\<lparr>searchTerm := t\<rparr>"
| "list_step lc c (EditClick x) s =
     (if row_rendered s x \<and> \<not> edit_disabled s x
      then s\<lparr>onEditMemo_calls := onEditMemo_calls s @ [trips_memo_no x]\<rparr> else s)"
| "list_step lc c (DownloadClick x) s =
     (if row_rendered s x
      then s\<lparr>onDownloadMemo_calls := onDownloadMemo_calls s @ [trips_memo_no x]\<rparr> else s)"
| "list_step lc c (DeleteClick x) s =
     (if row_rendered s x \<and> \<not> delete_disabled s x then openDeleteConfirmation x s else s)"
| "list_step lc c ConfirmDeleteClick s =
     (if isDeleteConfirmOpen s \<and> memoToDelete s \<noteq> None \<and> \<not> isSubmitting s
      then handleDelete lc c s else s)"
| "list_step lc c CancelDeleteClick s =
     (if isDeleteConfirmOpen s \<and> memoToDelete s \<noteq> None then closeDeleteConfirmation s
      else s)"

text \<open>
  A store in which an invoice without a number (the number a draft starts with) holds a
  memo, and the memo list as it loads from that store. The comparator plays no part with
  one memo.
\<close>

definition unnumbered_store :: store where
  "unnumbered_store = \<lparr>store_customers = [''Acme''], store_memos = [memo_M1],
     store_invoices = [invoice_A\<lparr>invoice_no := Some []\<rparr>],
     store_next_invoice_no = ''INV-2''\<rparr>"

definition unnumbered_list :: memo_crud where
  "unnumbered_list = fetchData (\<lambda>a b. 0) (ledger unnumbered_store) initial_memo_crud"

text \<open>
  Bookkeeping for the print effect: the registered listener, the pending timers that will
  call \<open>onPrinted\<close> and the calls already made, counted together; and the two bounds
  every pending timer obeys, being due later than now, and the \<open>onPrinted\<close> timers
  within 100 ms.
\<close>

definition one_shot_count :: "window \<Rightarrow> nat" where
  "one_shot_count w =
     (if afterprint_listener w then 1 else 0) + length (pending_onPrinted w)
       + onPrinted_calls w"

definition timers_ahead :: "window \<Rightarrow> bool" where
  "timers_ahead w =
     (list_all (\<lambda>(i, due, cb). now w < due) (timers w) \<and>
      list_all (\<lambda>(i, due, cb). due \<le> now w + 100) (pending_onPrinted w))"

text \<open>The ledger of the first store when the number generator fails.\<close>

definition numberless_ledger :: collab where
  "numberless_ledger = (ledger fresh_store)\<lparr>generateNewInvoiceNumber := None\<rparr>"


section \<open>Properties of the invoice form\<close>

subsection \<open>Arithmetic of the number model\<close>

lemma round64_not_NaN: "round64 x \<noteq> NaN"
  by (simp add: round64_def Let_def split: prod.splits)

lemma js_add_finite_not_NaN:
  assumes "x \<noteq> NaN" and "case y of Num a \<Rightarrow> True | NegZero \<Rightarrow> True | _ \<Rightarrow> False"
  shows "js_add x y \<noteq> NaN"
  using assms by (cases x; cases y) (simp_all add: round64_not_NaN)

lemma fold_finite_not_NaN:
  "a \<noteq> NaN \<Longrightarrow> list_all (\<lambda>y. case y of Num a \<Rightarrow> True | NegZero \<Rightarrow> True | _ \<Rightarrow> False) ys
   \<Longrightarrow> foldl js_add a ys \<noteq> NaN"
proof (induction ys arbitrary: a)
  case Nil
  then show ?case by simp
next
  case (Cons y ys)
  then have "js_add a y \<noteq> NaN" by (intro js_add_finite_not_NaN) simp_all
  with Cons show ?case by simp
qed

lemma finite_amounts_sum: "finite_amounts s \<Longrightarrow> selected_sum s \<noteq> NaN"
  unfolding selected_sum_def finite_amounts_def
  by (rule fold_finite_not_NaN) (simp_all add: list_all_iff)

lemma parseFloat_0: "parseFloat ''0'' = Num 0"
  by code_simp

lemma amt_or_0_amount: "parseFloat (amt_or_0 (lookup n)) = memo_amount lookup n"
  by (simp add: amt_or_0_def memo_amount_def truthy_str_def parseFloat_0 split: option.splits)

lemma fold_amounts:
  "foldl (\<lambda>sum memoNo. js_add sum (parseFloat (amt_or_0 (lookup memoNo)))) a ns
     = foldl js_add a (map (memo_amount lookup) ns)"
  by (induction ns arbitrary: a) (simp_all add: amt_or_0_amount)

lemma or_zero_None: "or_zero None = Num 0"
  by (simp add: or_zero_def)

lemma or_zero_Some: "or_zero (Some x) = (if truthy_num x then x else Num 0)"
  by (simp add: or_zero_def)

lemma stored_amount_or_zero: "or_zero (Some (stored_amount v)) = stored_amount v"
  by (simp add: or_zero_def stored_amount_def truthy_num_def)

subsection \<open>The totals are consistent in every state of the form\<close>

lemma calculateTotals_eq:
  "calculateTotals t =
     t\<lparr>invoice := (invoice t)\<lparr>total_amount := Some (recomputed_total t),
          balance := Some (js_sub (recomputed_total t) (or_zero (amount_paid (invoice t))))\<rparr>\<rparr>"
proof (cases "memo_nos (invoice t)")
  case None
  then have "recomputed_total t = Num 0"
    by (simp add: recomputed_total_def selected_sum_def memo_nos_or_empty_def truthy_num_def)
  with None show ?thesis by (simp add: calculateTotals_def Let_def or_zero_None)
next
  case (Some ms)
  then have "or_zero (Some (foldl (\<lambda>sum memoNo. js_add sum
               (parseFloat (amt_or_0 (allMemos t memoNo)))) (Num 0) ms)) = recomputed_total t"
    by (simp add: recomputed_total_def selected_sum_def memo_nos_or_empty_def fold_amounts
          or_zero_Some)
  with Some show ?thesis by (simp add: calculateTotals_def Let_def)
qed

lemma recomputed_total_cong:
  "memo_nos (invoice s') = memo_nos (invoice s) \<Longrightarrow> allMemos s' = allMemos s
   \<Longrightarrow> recomputed_total s' = recomputed_total s"
  by (simp add: recomputed_total_def selected_sum_def memo_nos_or_empty_def)

lemma calculateTotals_ok: "totals_ok (calculateTotals s)"
proof -
  let ?s = "s\<lparr>invoice := (invoice s)\<lparr>total_amount := Some (recomputed_total s),
          balance := Some (js_sub (recomputed_total s) (or_zero (amount_paid (invoice s))))\<rparr>\<rparr>"
  have "recomputed_total ?s = recomputed_total s" by (rule recomputed_total_cong) simp_all
  then have "totals_ok ?s" by (simp add: totals_ok_def)
  then show ?thesis by (simp add: calculateTotals_eq)
qed

lemma totals_ok_cong:
  "totals_ok s \<Longrightarrow> memo_nos (invoice s') = memo_nos (invoice s)
   \<Longrightarrow> amount_paid (invoice s') = amount_paid (invoice s)
   \<Longrightarrow> allMemos s' = allMemos s
   \<Longrightarrow> total_amount (invoice s') = total_amount (invoice s)
   \<Longrightarrow> balance (invoice s') = balance (invoice s) \<Longrightarrow> totals_ok s'"
  by (simp add: totals_ok_def recomputed_total_def selected_sum_def memo_nos_or_empty_def)

lemma dispatch_totals_ok:
  assumes "totals_ok s"
  shows "totals_ok (dispatch c ev s)"
proof (cases ev)
  case (CustomerChange name)
  with assms show ?thesis
    by (auto simp: dispatch_def calculateTotals_ok handleCustomerChange_def)
next
  case (MemoSelection n b)
  then show ?thesis by (simp add: dispatch_def calculateTotals_ok)
next
  case (AmountPaidInput v)
  with assms show ?thesis
    by (auto simp: dispatch_def calculateTotals_ok Let_def amount_paid_onChange_def
             elim!: totals_ok_cong)
next
  case (InvoiceDateInput v)
  with assms show ?thesis
    by (auto simp: dispatch_def invoice_date_onChange_def elim!: totals_ok_cong)
next
  case (StatusSelect v)
  with assms show ?thesis
    by (auto simp: dispatch_def status_onChange_def elim!: totals_ok_cong)
next
  case SaveClick
  with assms show ?thesis
    by (auto simp: dispatch_def handleSave_def addToast_def Let_def elim!: totals_ok_cong)
qed

lemma load_body_rejected:
  "getCustomers c = None \<or> getMemos c = None \<Longrightarrow> load_body c today i s = load_failed s"
  by (auto simp: load_body_def split: option.splits)

lemma mount_totals_ok: "totals_ok (mount c today i)"
proof (cases "getCustomers c \<noteq> None \<and> getMemos c \<noteq> None")
  case True
  then show ?thesis by (simp add: mount_def Let_def calculateTotals_ok)
next
  case False
  then have "load_body c today i s = load_failed s" for s
    by (intro load_body_rejected) auto
  then show ?thesis
    using False calculateTotals_ok [of "initial_form today"]
    by (auto simp: mount_def Let_def loadInitialData_def load_failed_def addToast_def
             elim!: totals_ok_cong)
qed

lemma reachable_totals_ok: "reachable c today i s \<Longrightarrow> totals_ok s"
  by (induction rule: reachable.induct) (simp_all add: mount_totals_ok dispatch_totals_ok)

lemma reachable_run_events:
  "reachable c today i s \<Longrightarrow> all_enabled c evs s \<Longrightarrow> reachable c today i (run_events c evs s)"
proof (induction evs arbitrary: s)
  case Nil
  then show ?case by (simp add: run_events_def)
next
  case (Cons ev evs)
  then have "reachable c today i (dispatch c ev s)" by (auto intro: reachable.step)
  with Cons show ?case by (simp add: run_events_def)
qed

lemma new_session_reachable:
  "all_enabled (ledger fresh_store) evs (mount (ledger fresh_store) ''2024-03-01'' None)
   \<Longrightarrow> reachable (ledger fresh_store) ''2024-03-01'' None (new_session evs)"
  unfolding new_session_def by (intro reachable_run_events reachable.mounted)

text \<open>
  Claim C1, as amended. \<open>calculateTotals\<close> changes nothing but the two totals of the
  invoice: \<open>total_amount\<close> becomes the sum of the parsed \<open>trips_total_amt\<close> of the
  selected numbers, added in the order of the selection, a number missing from the lookup
  or a memo with an empty amount counting as zero, except that a sum that is NaN is
  replaced by zero; \<open>balance\<close> becomes that total minus the amount paid, a missing or
  falsy amount paid counting as zero. The recomputation runs after every change of the
  selection and after every change of the amount paid, so the totals are these in every
  state the form can reach. When every selected amount is a finite number the sum is not
  NaN, and the total is the sum.
\<close>

theorem totals_follow_every_change:
  "calculateTotals t =
     t\<lparr>invoice := (invoice t)\<lparr>total_amount := Some (recomputed_total t),
          balance := Some (js_sub (recomputed_total t) (or_zero (amount_paid (invoice t))))\<rparr>\<rparr> \<and>
   dispatch c (MemoSelection memoNo isSelected) t
     = calculateTotals (handleMemoSelection memoNo isSelected t) \<and>
   (amount_paid (invoice (amount_paid_onChange v t)) \<noteq> amount_paid (invoice t) \<longrightarrow>
      dispatch c (AmountPaidInput v) t = calculateTotals (amount_paid_onChange v t)) \<and>
   (reachable c today invoiceIdToLoad s \<longrightarrow>
      total_amount (invoice s) = Some (recomputed_total s) \<and>
      balance (invoice s)
        = Some (js_sub (recomputed_total s) (or_zero (amount_paid (invoice s)))) \<and>
      (finite_amounts s \<longrightarrow> selected_sum s \<noteq> NaN))"
proof (intro conjI impI)
  show "calculateTotals t =
     t\<lparr>invoice := (invoice t)\<lparr>total_amount := Some (recomputed_total t),
          balance := Some (js_sub (recomputed_total t) (or_zero (amount_paid (invoice t))))\<rparr>\<rparr>"
    by (rule calculateTotals_eq)
next
  show "dispatch c (MemoSelection memoNo isSelected) t
          = calculateTotals (handleMemoSelection memoNo isSelected t)"
    by (simp add: dispatch_def)
next
  assume "amount_paid (invoice (amount_paid_onChange v t)) \<noteq> amount_paid (invoice t)"
  then show "dispatch c (AmountPaidInput v) t = calculateTotals (amount_paid_onChange v t)"
    by (simp add: dispatch_def)
next
  assume "reachable c today invoiceIdToLoad s"
  then have ok: "totals_ok s" by (rule reachable_totals_ok)
  then show "total_amount (invoice s) = Some (recomputed_total s)"
    by (simp add: totals_ok_def)
  from ok show "balance (invoice s)
        = Some (js_sub (recomputed_total s) (or_zero (amount_paid (invoice s))))"
    by (simp add: totals_ok_def)
  assume "finite_amounts s"
  then show "selected_sum s \<noteq> NaN" by (rule finite_amounts_sum)
qed

text \<open>
  The scenario of the specification: memos of 500 and 300 selected, 200 paid.
\<close>

theorem totals_follow_every_change_witness:
  "amount_paid (invoice (amount_paid_onChange ''200''
      (new_session [CustomerChange ''Acme'', MemoSelection ''M1'' True,
                    MemoSelection ''M2'' True])))
     \<noteq> amount_paid (invoice
      (new_session [CustomerChange ''Acme'', MemoSelection ''M1'' True,
                    MemoSelection ''M2'' True])) \<and>
   reachable (ledger fresh_store) ''2024-03-01'' None
     (new_session [CustomerChange ''Acme'', MemoSelection ''M1'' True,
                   MemoSelection ''M2'' True, AmountPaidInput ''200'']) \<and>
   finite_amounts
     (new_session [CustomerChange ''Acme'', MemoSelection ''M1'' True,
                   MemoSelection ''M2'' True, AmountPaidInput ''200'']) \<and>
   total_amount (invoice
     (new_session [CustomerChange ''Acme'', MemoSelection ''M1'' True,
                   MemoSelection ''M2'' True, AmountPaidInput ''200''])) = Some (Num 800) \<and>
   balance (invoice
     (new_session [CustomerChange ''Acme'', MemoSelection ''M1'' True,
                   MemoSelection ''M2'' True, AmountPaidInput ''200''])) = Some (Num 600)"
proof -
  let ?pre = "[CustomerChange ''Acme'', MemoSelection ''M1'' True, MemoSelection ''M2'' True]"
  let ?evs = "[CustomerChange ''Acme'', MemoSelection ''M1'' True,
               MemoSelection ''M2'' True, AmountPaidInput ''200'']"
  have ch: "amount_paid (invoice (amount_paid_onChange ''200'' (new_session ?pre)))
              \<noteq> amount_paid (invoice (new_session ?pre))"
    by code_simp
  have en: "all_enabled (ledger fresh_store) ?evs (mount (ledger fresh_store) ''2024-03-01'' None)"
    by code_simp
  have r: "reachable (ledger fresh_store) ''2024-03-01'' None (new_session ?evs)"
    using en by (rule new_session_reachable)
  have f: "finite_amounts (new_session ?evs)" by code_simp
  have t: "recomputed_total (new_session ?evs) = Num 800" by code_simp
  have p: "or_zero (amount_paid (invoice (new_session ?evs))) = Num 200" by code_simp
  have d: "js_sub (Num 800) (Num 200) = Num 600" by code_simp
  from totals_follow_every_change [of "new_session ?pre" "ledger fresh_store" _ _ "''200''"
         "''2024-03-01''" None "new_session ?evs"]
  show ?thesis using ch r f t p d by simp
qed

text \<open>
  The claim as it was stated fails when a selected amount does not parse: with the memos
  of 500 and of \<open>abc\<close> selected the sum is NaN and the stored total is zero.
\<close>

theorem totals_nan_counterexample:
  "total_amount (invoice (new_session
     [CustomerChange ''Acme'', MemoSelection ''M1'' True, MemoSelection ''M3'' True]))
     = Some (Num 0) \<and>
   memo_amount (allMemos (new_session
     [CustomerChange ''Acme'', MemoSelection ''M1'' True, MemoSelection ''M3'' True])) ''M1''
     = Num 500 \<and>
   selected_sum (new_session
     [CustomerChange ''Acme'', MemoSelection ''M1'' True, MemoSelection ''M3'' True]) = NaN"
  by code_simp

text \<open>
  The arithmetic is that of binary64: amounts of 100.1 and 200.2 add up to
  300.29999999999995, and 300.30 paid against them leaves a balance of about
  \<open>- 5.68e-14\<close>.
\<close>

lemma totals_are_rounded:
  "js_add (js_add (Num 0) (parseFloat ''100.1'')) (parseFloat ''200.2'')
     = Num (1320733367284531 / 4398046511104) \<and>
   js_sub (Num (1320733367284531 / 4398046511104)) (stored_amount ''300.30'')
     = Num (- (1 / 17592186044416)) \<and>
   parseFloat ''1e309'' = PosInf \<and> stored_amount ''1e-324'' = Num 0"
  by code_simp

subsection \<open>Saving\<close>

lemma validateForSave_fails: "validateForSave iv \<noteq> None \<Longrightarrow> validation_fails iv"
  by (auto simp: validateForSave_def validation_fails_def split: if_splits)

lemma validateForSave_passes: "validateForSave iv = None \<Longrightarrow> \<not> validation_fails iv"
  by (auto simp: validateForSave_def validation_fails_def split: if_splits)

text \<open>
  Claim C3, as amended. When the draft lacks a customer name, a date or a selected memo,
  Save raises one notice, the same for the three reasons, sends no write to the store and
  leaves the draft as it is.
\<close>

theorem save_validation_generic_notice:
  "validateForSave (invoice s) \<noteq> None \<Longrightarrow>
     toasts (handleSave c s)
       = toasts s @ [(''Please select a customer, date, and at least one memo.'', Error)] \<and>
     writes (handleSave c s) = writes s \<and>
     invoice (handleSave c s) = invoice s \<and>
     onSaveSuccess_calls (handleSave c s) = onSaveSuccess_calls s"
proof -
  assume "validateForSave (invoice s) \<noteq> None"
  then have "validation_fails (invoice s)" by (rule validateForSave_fails)
  then show ?thesis by (simp add: handleSave_def addToast_def)
qed

text \<open>
  The scenario of the specification: customer and date set, nothing selected.
\<close>

theorem save_validation_generic_notice_witness:
  "validateForSave (invoice_A\<lparr>memo_nos := Some []\<rparr>) = Some noMemosSelected \<and>
   toasts (handleSave (ledger fresh_store)
      ((initial_form ''2024-03-01'')\<lparr>invoice := invoice_A\<lparr>memo_nos := Some []\<rparr>\<rparr>))
     = [(''Please select a customer, date, and at least one memo.'', Error)] \<and>
   writes (handleSave (ledger fresh_store)
      ((initial_form ''2024-03-01'')\<lparr>invoice := invoice_A\<lparr>memo_nos := Some []\<rparr>\<rparr>)) = []"
proof -
  let ?s = "(initial_form ''2024-03-01'')\<lparr>invoice := invoice_A\<lparr>memo_nos := Some []\<rparr>\<rparr>"
  have h: "validateForSave (invoice ?s) = Some noMemosSelected"
    by (simp add: validateForSave_def invoice_A_def truthy_ostr_def truthy_str_def
          memo_nos_or_empty_def)
  then have "validateForSave (invoice ?s) \<noteq> None" by simp
  from save_validation_generic_notice [OF this, of "ledger fresh_store"] h
  show ?thesis by (simp add: initial_form_def)
qed

text \<open>
  Two drafts that fail for different reasons, the first for its missing customer, the
  second for its empty selection, get the same notice.
\<close>

theorem save_reason_counterexample:
  "validateForSave (invoice_A\<lparr>customer_name := Some ''''\<rparr>) = Some missingCustomer \<and>
   validateForSave (invoice_A\<lparr>memo_nos := Some []\<rparr>) = Some noMemosSelected \<and>
   toasts (handleSave (ledger fresh_store)
      ((initial_form ''2024-03-01'')\<lparr>invoice := invoice_A\<lparr>customer_name := Some ''''\<rparr>\<rparr>))
   = toasts (handleSave (ledger fresh_store)
      ((initial_form ''2024-03-01'')\<lparr>invoice := invoice_A\<lparr>memo_nos := Some []\<rparr>\<rparr>))"
  by (simp add: validateForSave_def invoice_A_def truthy_ostr_def truthy_str_def
        memo_nos_or_empty_def handleSave_def validation_fails_def addToast_def
        initial_form_def)

text \<open>
  Claim C9. When the draft is valid and the store rejects the create or update, the
  invoice draft is unchanged, the failure notice is raised, neither \<open>onSaveSuccess\<close>
  nor \<open>onCancel\<close> is called, and the form is no longer saving, so Save can be pressed
  again.
\<close>

theorem save_failure_keeps_draft:
  assumes "validateForSave (invoice s) = None"
    and "if truthy_id (invoice_id (invoice s)) then \<not> updateInvoice c (invoice s)
         else \<not> addInvoice c (invoice s)"
  shows "invoice (handleSave c s) = invoice s \<and>
         toasts (handleSave c s) = toasts s @ [(''Failed to save invoice.'', Error)] \<and>
         onSaveSuccess_calls (handleSave c s) = onSaveSuccess_calls s \<and>
         onCancel_calls (handleSave c s) = onCancel_calls s \<and>
         availableMemos (handleSave c s) = availableMemos s \<and>
         allMemos (handleSave c s) = allMemos s \<and>
         isLoading (handleSave c s) = isLoading s \<and>
         \<not> isSaving (handleSave c s)"
proof -
  from assms(1) have v: "\<not> validation_fails (invoice s)"
    by (rule validateForSave_passes)
  show ?thesis
  proof (cases "truthy_id (invoice_id (invoice s))")
    case True
    with assms(2) v show ?thesis by (simp add: handleSave_def addToast_def Let_def)
  next
    case False
    with assms(2) v show ?thesis by (simp add: handleSave_def addToast_def Let_def)
  qed
qed


theorem save_failure_keeps_draft_witness:
  "validateForSave invoice_A = None \<and>
   invoice (handleSave (failing_ledger billed_store)
      ((initial_form ''2024-03-01'')\<lparr>invoice := invoice_A\<rparr>)) = invoice_A \<and>
   toasts (handleSave (failing_ledger billed_store)
      ((initial_form ''2024-03-01'')\<lparr>invoice := invoice_A\<rparr>))
     = [(''Failed to save invoice.'', Error)] \<and>
   onSaveSuccess_calls (handleSave (failing_ledger billed_store)
      ((initial_form ''2024-03-01'')\<lparr>invoice := invoice_A\<rparr>)) = 0"
proof -
  let ?s = "(initial_form ''2024-03-01'')\<lparr>invoice := invoice_A\<rparr>"
  have v: "validateForSave (invoice ?s) = None"
    by (simp add: validateForSave_def invoice_A_def truthy_ostr_def truthy_str_def
          memo_nos_or_empty_def)
  have f: "if truthy_id (invoice_id (invoice ?s))
           then \<not> updateInvoice (failing_ledger billed_store) (invoice ?s)
           else \<not> addInvoice (failing_ledger billed_store) (invoice ?s)"
    by (simp add: failing_ledger_def)
  from save_failure_keeps_draft [OF v f] v show ?thesis by (simp add: initial_form_def)
qed

subsection \<open>Changing the customer\<close>

text \<open>
  Claim C4, as amended. The guard of \<open>handleCustomerChange\<close> is the invoice's
  identifier, not its selection: on an invoice that has an identifier the handler changes
  nothing; on one that has none it stores the new name, clears the selection, and takes
  the customer's uninvoiced memos from the collaborator (or no memos, for an empty name).
\<close>

theorem customer_change_guard:
  "(truthy_id (invoice_id (invoice s)) \<longrightarrow> handleCustomerChange c name s = s) \<and>
   (\<not> truthy_id (invoice_id (invoice s)) \<longrightarrow>
      customer_name (invoice (handleCustomerChange c name s)) = Some name \<and>
      memo_nos (invoice (handleCustomerChange c name s)) = Some [] \<and>
      (name = [] \<longrightarrow> availableMemos (handleCustomerChange c name s) = []) \<and>
      (name \<noteq> [] \<longrightarrow> getUninvoicedMemosForCustomer c (Some name) = Some ms \<longrightarrow>
         availableMemos (handleCustomerChange c name s) = ms))"
  by (auto simp: handleCustomerChange_def Let_def truthy_str_def split: option.splits)

theorem customer_change_guard_witness:
  "\<not> truthy_id (invoice_id (invoice (new_session []))) \<and>
   customer_name (invoice (handleCustomerChange (ledger fresh_store) ''Acme'' (new_session [])))
     = Some ''Acme'' \<and>
   availableMemos (handleCustomerChange (ledger fresh_store) ''Acme'' (new_session []))
     = [memo_M1, memo_M2, memo_M3] \<and>
   truthy_id (invoice_id (invoice ((initial_form ''2024-03-01'')\<lparr>invoice := invoice_A\<rparr>))) \<and>
   customer_name (invoice (handleCustomerChange (ledger fresh_store) ''Beta''
      ((initial_form ''2024-03-01'')\<lparr>invoice := invoice_A\<rparr>))) = Some ''Acme''"
proof -
  have a: "\<not> truthy_id (invoice_id (invoice (new_session [])))" by code_simp
  have b: "getUninvoicedMemosForCustomer (ledger fresh_store) (Some ''Acme'')
             = Some [memo_M1, memo_M2, memo_M3]"
    by code_simp
  have n: "''Acme'' \<noteq> []" by simp
  have c: "truthy_id (invoice_id (invoice ((initial_form ''2024-03-01'')\<lparr>invoice := invoice_A\<rparr>)))"
    by (simp add: truthy_id_def invoice_A_def)
  from customer_change_guard [of "new_session []" "ledger fresh_store" "''Acme''" "[memo_M1, memo_M2, memo_M3]"]
       customer_change_guard [of "(initial_form ''2024-03-01'')\<lparr>invoice := invoice_A\<rparr>" "ledger fresh_store" "''Beta''"]
       a b n c
  show ?thesis by (simp add: invoice_A_def)
qed

text \<open>
  A new invoice with one memo selected: the customer changes all the same.
\<close>

theorem customer_change_counterexample:
  "memo_nos (invoice (new_session [CustomerChange ''Acme'', MemoSelection ''M1'' True]))
     = Some [''M1''] \<and>
   customer_name (invoice (new_session [CustomerChange ''Acme'', MemoSelection ''M1'' True]))
     = Some ''Acme'' \<and>
   enabled (CustomerChange ''Beta'')
     (new_session [CustomerChange ''Acme'', MemoSelection ''M1'' True]) \<and>
   customer_name (invoice (dispatch (ledger fresh_store) (CustomerChange ''Beta'')
     (new_session [CustomerChange ''Acme'', MemoSelection ''M1'' True]))) = Some ''Beta''"
  by code_simp

subsection \<open>Selecting memos\<close>

text \<open>
  Claim C10. Switching a number off leaves exactly the other entries of \<open>memo_nos\<close>,
  in their order and with their repetitions, so the number is no longer a member however
  often it occurred; switching a number on appends it without looking for it first, so a
  number that was there already is there once more afterwards. Nothing else in the form
  changes.
\<close>

theorem memo_selection_toggle:
  "handleMemoSelection memoNo False s
     = s\<lparr>invoice := (invoice s)\<lparr>memo_nos :=
           Some (filter (\<lambda>m. m \<noteq> memoNo) (memo_nos_or_empty (invoice s)))\<rparr>\<rparr> \<and>
   memoNo \<notin> set (memo_nos_or_empty (invoice (handleMemoSelection memoNo False s))) \<and>
   (k \<noteq> memoNo \<longrightarrow>
      count_list (memo_nos_or_empty (invoice (handleMemoSelection memoNo False s))) k
        = count_list (memo_nos_or_empty (invoice s)) k) \<and>
   handleMemoSelection memoNo True s
     = s\<lparr>invoice := (invoice s)\<lparr>memo_nos :=
           Some (memo_nos_or_empty (invoice s) @ [memoNo])\<rparr>\<rparr> \<and>
   count_list (memo_nos_or_empty (invoice (handleMemoSelection memoNo True s))) memoNo
     = Suc (count_list (memo_nos_or_empty (invoice s)) memoNo) \<and>
   (memoNo \<in> set (memo_nos_or_empty (invoice s)) \<longrightarrow>
      \<not> distinct (memo_nos_or_empty (invoice (handleMemoSelection memoNo True s))))"
proof -
  have "count_list (filter (\<lambda>m. m \<noteq> memoNo) xs) k = count_list xs k"
    if "k \<noteq> memoNo" for xs
    using that by (induction xs) auto
  then show ?thesis
    by (simp add: handleMemoSelection_def memo_nos_or_empty_def)
qed

text \<open>
  On the selection M1, M2, M1: switching M1 off leaves M2 alone, switching it on gives a
  third M1.
\<close>

theorem memo_selection_toggle_witness:
  "''M2'' \<noteq> ''M1'' \<and>
   ''M1'' \<in> set (memo_nos_or_empty (invoice_A\<lparr>memo_nos := Some [''M1'', ''M2'', ''M1'']\<rparr>)) \<and>
   memo_nos (invoice (handleMemoSelection ''M1'' False
       ((initial_form ''2024-03-01'')
          \<lparr>invoice := invoice_A\<lparr>memo_nos := Some [''M1'', ''M2'', ''M1'']\<rparr>\<rparr>)))
     = Some [''M2''] \<and>
   memo_nos (invoice (handleMemoSelection ''M1'' True
       ((initial_form ''2024-03-01'')
          \<lparr>invoice := invoice_A\<lparr>memo_nos := Some [''M1'', ''M2'', ''M1'']\<rparr>\<rparr>)))
     = Some [''M1'', ''M2'', ''M1'', ''M1''] \<and>
   \<not> distinct (memo_nos_or_empty (invoice (handleMemoSelection ''M1'' True
       ((initial_form ''2024-03-01'')
          \<lparr>invoice := invoice_A\<lparr>memo_nos := Some [''M1'', ''M2'', ''M1'']\<rparr>\<rparr>))))"
proof -
  let ?s = "(initial_form ''2024-03-01'')
              \<lparr>invoice := invoice_A\<lparr>memo_nos := Some [''M1'', ''M2'', ''M1'']\<rparr>\<rparr>"
  have h: "''M1'' \<in> set (memo_nos_or_empty (invoice ?s))"
    by (simp add: memo_nos_or_empty_def)
  have k: "''M2'' \<noteq> ''M1''" by simp
  from memo_selection_toggle [of "''M1''" ?s "''M2''"] h k
  show ?thesis by (simp add: memo_nos_or_empty_def)
qed

subsection \<open>The amount paid\<close>

text \<open>
  Claim C5, as amended. The input stores \<open>parseFloat\<close> of the text, or zero when that
  is NaN or a zero, and changes nothing else; nothing looks at the sign. In every state
  the form can reach, the totals are recomputed with the new amount: the invoice after
  the input is the invoice before it with the new amount paid and the balance of the
  total against it.
\<close>

theorem amount_paid_input:
  "amount_paid_onChange v t
     = t\<lparr>invoice := (invoice t)\<lparr>amount_paid := Some (stored_amount v)\<rparr>\<rparr> \<and>
   stored_amount v \<noteq> NaN \<and>
   (reachable c today invoiceIdToLoad s \<longrightarrow>
      invoice (dispatch c (AmountPaidInput v) s)
        = (invoice s)\<lparr>amount_paid := Some (stored_amount v),
             balance := Some (js_sub (recomputed_total s) (stored_amount v))\<rparr>)"
proof (intro conjI impI)
  show h: "amount_paid_onChange v t
             = t\<lparr>invoice := (invoice t)\<lparr>amount_paid := Some (stored_amount v)\<rparr>\<rparr>" for t
    by (simp add: amount_paid_onChange_def stored_amount_def or_zero_Some)
  show "stored_amount v \<noteq> NaN"
    by (simp add: stored_amount_def truthy_num_def)
  assume "reachable c today invoiceIdToLoad s"
  then have ok: "totals_ok s" by (rule reachable_totals_ok)
  let ?s1 = "s\<lparr>invoice := (invoice s)\<lparr>amount_paid := Some (stored_amount v)\<rparr>\<rparr>"
  have t1: "recomputed_total ?s1 = recomputed_total s"
    by (rule recomputed_total_cong) simp_all
  show "invoice (dispatch c (AmountPaidInput v) s)
          = (invoice s)\<lparr>amount_paid := Some (stored_amount v),
               balance := Some (js_sub (recomputed_total s) (stored_amount v))\<rparr>"
  proof (cases "amount_paid (invoice s) = Some (stored_amount v)")
    case True
    with ok have "balance (invoice s) = Some (js_sub (recomputed_total s) (stored_amount v))"
      by (simp add: totals_ok_def stored_amount_or_zero)
    with True show ?thesis by (simp add: dispatch_def h)
  next
    case False
    then have "dispatch c (AmountPaidInput v) s = calculateTotals ?s1"
      by (auto simp: dispatch_def h)
    moreover from ok have "total_amount (invoice s) = Some (recomputed_total s)"
      by (simp add: totals_ok_def)
    ultimately show ?thesis
      by (simp add: calculateTotals_eq t1 stored_amount_or_zero)
  qed
qed

theorem amount_paid_input_witness:
  "reachable (ledger fresh_store) ''2024-03-01'' None (new_session []) \<and>
   amount_paid (invoice (dispatch (ledger fresh_store) (AmountPaidInput ''200'') (new_session [])))
     = Some (Num 200) \<and>
   balance (invoice (dispatch (ledger fresh_store) (AmountPaidInput ''200'') (new_session [])))
     = Some (Num (- 200))"
proof -
  have r: "reachable (ledger fresh_store) ''2024-03-01'' None (new_session [])"
    by (rule new_session_reachable) simp
  have p: "stored_amount ''200'' = Num 200" by code_simp
  have t: "recomputed_total (new_session []) = Num 0" by code_simp
  have d: "js_sub (Num 0) (Num 200) = Num (- 200)" by code_simp
  from amount_paid_input [of "''200''" _ "ledger fresh_store" "''2024-03-01''" None "new_session []"]
       r p t d
  show ?thesis by simp
qed

text \<open>A negative input is stored as it is.\<close>

theorem amount_paid_negative_counterexample:
  "enabled (AmountPaidInput ''-5'') (new_session []) \<and>
   amount_paid (invoice (dispatch (ledger fresh_store) (AmountPaidInput ''-5'') (new_session [])))
     = Some (Num (- 5))"
  by code_simp

subsection \<open>The memos on display\<close>





























section \<open>Properties of the print effect\<close>

subsection \<open>Timers\<close>

lemma run_callbacks_fields:
  "timers (foldl (\<lambda>v (i, due, cb). run_callback cb v) w xs) = timers w"
  "now (foldl (\<lambda>v (i, due, cb). run_callback cb v) w xs) = now w"
  "afterprint_listener (foldl (\<lambda>v (i, due, cb). run_callback cb v) w xs)
     = afterprint_listener w"
  "printTimer (foldl (\<lambda>v (i, due, cb). run_callback cb v) w xs) = printTimer w"
  "next_handle (foldl (\<lambda>v (i, due, cb). run_callback cb v) w xs) = next_handle w"
proof (induction xs arbitrary: w)
  case Nil
  {
    case 1 show ?case by simp
  next
    case 2 show ?case by simp
  next
    case 3 show ?case by simp
  next
    case 4 show ?case by simp
  next
    case 5 show ?case by simp
  }
next
  case (Cons x xs)
  obtain i due cb where x: "x = (i, due, cb)" by (cases x)
  {
    case 1 show ?case using Cons.IH(1) [of "run_callback cb w"] x by (cases cb) simp_all
  next
    case 2 show ?case using Cons.IH(2) [of "run_callback cb w"] x by (cases cb) simp_all
  next
    case 3 show ?case using Cons.IH(3) [of "run_callback cb w"] x by (cases cb) simp_all
  next
    case 4 show ?case using Cons.IH(4) [of "run_callback cb w"] x by (cases cb) simp_all
  next
    case 5 show ?case using Cons.IH(5) [of "run_callback cb w"] x by (cases cb) simp_all
  }
qed

lemma run_callbacks_onPrinted:
  "onPrinted_calls (foldl (\<lambda>v (i, due, cb). run_callback cb v) w xs)
     = onPrinted_calls w + length (filter (\<lambda>(i, due, cb). cb = OnPrintedCallback) xs)"
proof (induction xs arbitrary: w)
  case Nil
  then show ?case by simp
next
  case (Cons x xs)
  obtain i due cb where x: "x = (i, due, cb)" by (cases x)
  show ?case using Cons.IH [of "run_callback cb w"] x by (cases cb) simp_all
qed

lemma elapse_fields:
  "timers (elapse d w) = filter (\<lambda>(i, due, cb). \<not> due \<le> now w + d) (timers w)"
  "now (elapse d w) = now w + d"
  "afterprint_listener (elapse d w) = afterprint_listener w"
  "printTimer (elapse d w) = printTimer w"
  by (simp_all add: elapse_def Let_def run_callbacks_fields)

lemma elapse_onPrinted:
  "onPrinted_calls (elapse d w)
     = onPrinted_calls w
       + length (filter (\<lambda>(i, due, cb). due \<le> now w + d) (pending_onPrinted w))"
proof -
  let ?ripe = "filter (\<lambda>(i, due, cb). due \<le> now w + d) (timers w)"
  have "onPrinted_calls (elapse d w)
          = onPrinted_calls w
            + length (filter (\<lambda>(i, due, cb). cb = OnPrintedCallback)
                        (sort_key (\<lambda>(i, due, cb). due) ?ripe))"
    by (simp add: elapse_def Let_def run_callbacks_onPrinted)
  also have "length (filter (\<lambda>(i, due, cb). cb = OnPrintedCallback)
                        (sort_key (\<lambda>(i, due, cb). due) ?ripe))
               = length (filter (\<lambda>(i, due, cb). cb = OnPrintedCallback) ?ripe)"
    by (simp add: filter_sort)
  also have "filter (\<lambda>(i, due, cb). cb = OnPrintedCallback) ?ripe
               = filter (\<lambda>(i, due, cb). due \<le> now w + d) (pending_onPrinted w)"
    unfolding pending_onPrinted_def filter_filter by (rule filter_cong) auto
  finally show ?thesis .
qed


lemma pending_elapse:
  "pending_onPrinted (elapse d w)
     = filter (\<lambda>(i, due, cb). \<not> due \<le> now w + d) (pending_onPrinted w)"
  unfolding pending_onPrinted_def elapse_fields filter_filter by (rule filter_cong) auto

lemma pending_handleAfterPrint:
  "pending_onPrinted (handleAfterPrint w)
     = pending_onPrinted w @ [(next_handle w, now w + 100, OnPrintedCallback)]"
  by (simp add: pending_onPrinted_def handleAfterPrint_def setTimeout_def)

lemma pending_cleanup:
  "set (pending_onPrinted (print_cleanup w)) \<subseteq> set (pending_onPrinted w)"
  "length (pending_onPrinted (print_cleanup w)) \<le> length (pending_onPrinted w)"
proof -
  have "pending_onPrinted (print_cleanup w)
          = (case printTimer w of None \<Rightarrow> pending_onPrinted w
             | Some h \<Rightarrow> filter (\<lambda>(i, due, cb). i \<noteq> h) (pending_onPrinted w))"
    unfolding pending_onPrinted_def print_cleanup_def clearTimeout_def
    by (cases "printTimer w") (auto simp: filter_filter intro: filter_cong)
  then show "set (pending_onPrinted (print_cleanup w)) \<subseteq> set (pending_onPrinted w)"
    and "length (pending_onPrinted (print_cleanup w)) \<le> length (pending_onPrinted w)"
    by (auto split: option.splits)
qed

subsection \<open>The listener is one-shot\<close>

lemma one_shot_step_le: "one_shot_count (print_step e w) \<le> one_shot_count w"
proof (cases e)
  case AfterPrint
  then show ?thesis
    by (simp add: one_shot_count_def pending_handleAfterPrint)
       (simp add: handleAfterPrint_def setTimeout_def)
next
  case (Elapse d)
  have "length (filter (\<lambda>(i, due, cb). \<not> due \<le> now w + d) (pending_onPrinted w))
          + length (filter (\<lambda>(i, due, cb). due \<le> now w + d) (pending_onPrinted w))
        = length (pending_onPrinted w)"
    using sum_length_filter_compl [of "\<lambda>(i, due, cb). due \<le> now w + d" "pending_onPrinted w"]
    by (simp add: split_def add.commute)
  with Elapse show ?thesis
    by (simp add: one_shot_count_def pending_elapse elapse_onPrinted elapse_fields)
next
  case Teardown
  with pending_cleanup(2) [of w] show ?thesis
    by (auto simp: one_shot_count_def print_cleanup_def clearTimeout_def
             split: option.splits)
qed

lemma one_shot_step_eq:
  assumes "e \<noteq> Teardown"
  shows "one_shot_count (print_step e w) = one_shot_count w"
proof (cases e)
  case AfterPrint
  then show ?thesis
    by (simp add: one_shot_count_def pending_handleAfterPrint)
       (simp add: handleAfterPrint_def setTimeout_def)
next
  case (Elapse d)
  have "length (filter (\<lambda>(i, due, cb). \<not> due \<le> now w + d) (pending_onPrinted w))
          + length (filter (\<lambda>(i, due, cb). due \<le> now w + d) (pending_onPrinted w))
        = length (pending_onPrinted w)"
    using sum_length_filter_compl [of "\<lambda>(i, due, cb). due \<le> now w + d" "pending_onPrinted w"]
    by (simp add: split_def add.commute)
  with Elapse show ?thesis
    by (simp add: one_shot_count_def pending_elapse elapse_onPrinted elapse_fields)
next
  case Teardown
  with assms show ?thesis by simp
qed

lemma print_run_snoc: "print_run (es @ [e]) w = print_step e (print_run es w)"
  by (simp add: print_run_def)

lemma print_run_append: "print_run (es @ fs) w = print_run fs (print_run es w)"
  by (simp add: print_run_def)

lemma one_shot_run_le: "one_shot_count (print_run es w) \<le> one_shot_count w"
proof (induction es rule: rev_induct)
  case Nil
  then show ?case by (simp add: print_run_def)
next
  case (snoc e es)
  have "one_shot_count (print_step e (print_run es w)) \<le> one_shot_count (print_run es w)"
    by (rule one_shot_step_le)
  with snoc show ?case by (simp add: print_run_snoc)
qed

lemma one_shot_run_eq:
  "Teardown \<notin> set es \<Longrightarrow> one_shot_count (print_run es w) = one_shot_count w"
proof (induction es rule: rev_induct)
  case Nil
  then show ?case by (simp add: print_run_def)
next
  case (snoc e es)
  then have "e \<noteq> Teardown" by auto
  then have "one_shot_count (print_step e (print_run es w)) = one_shot_count (print_run es w)"
    by (rule one_shot_step_eq)
  with snoc show ?case by (simp add: print_run_snoc)
qed

lemma one_shot_mounted: "one_shot_count (download_mounted t) = 1"
  by (simp add: one_shot_count_def download_mounted_def print_effect_def setTimeout_def
        fresh_window_def pending_onPrinted_def)

lemma timers_ahead_step:
  assumes "timers_ahead w"
  shows "timers_ahead (print_step e w)"
proof (cases e)
  case AfterPrint
  with assms show ?thesis
    by (auto simp: timers_ahead_def pending_handleAfterPrint)
       (auto simp: handleAfterPrint_def setTimeout_def)
next
  case (Elapse d)
  with assms show ?thesis
    by (auto simp: timers_ahead_def pending_elapse elapse_fields list_all_iff)
next
  case Teardown
  with assms pending_cleanup(1) [of w] show ?thesis
    by (auto simp: timers_ahead_def list_all_iff print_cleanup_def clearTimeout_def
             split: option.splits)
qed

lemma timers_ahead_run: "timers_ahead w \<Longrightarrow> timers_ahead (print_run es w)"
proof (induction es rule: rev_induct)
  case Nil
  then show ?case by (simp add: print_run_def)
next
  case (snoc e es)
  then show ?case by (simp add: print_run_snoc timers_ahead_step)
qed

lemma timers_ahead_mounted: "timers_ahead (download_mounted t)"
  by (simp add: timers_ahead_def download_mounted_def print_effect_def setTimeout_def
        fresh_window_def pending_onPrinted_def)

lemma now_run: "now (print_run es w) = now w + elapsed es"
proof (induction es arbitrary: w)
  case Nil
  then show ?case by (simp add: print_run_def)
next
  case (Cons e es)
  have "now (print_step e w) + elapsed es = now w + elapsed (e # es)"
    by (cases e)
       (simp_all add: elapse_fields handleAfterPrint_def setTimeout_def print_cleanup_def
          clearTimeout_def split: option.splits)
  with Cons [of "print_step e w"] show ?case by (simp add: print_run_def)
qed

text \<open>
  Once the listener is gone it stays gone, and the timers that call \<open>onPrinted\<close> keep
  their due times.
\<close>

lemma no_listener_step:
  assumes "\<not> afterprint_listener w"
    and "list_all (\<lambda>(i, due, cb). due \<le> T) (pending_onPrinted w)"
  shows "\<not> afterprint_listener (print_step e w) \<and>
         list_all (\<lambda>(i, due, cb). due \<le> T) (pending_onPrinted (print_step e w))"
proof (cases e)
  case AfterPrint
  with assms show ?thesis by simp
next
  case (Elapse d)
  with assms show ?thesis by (auto simp: pending_elapse elapse_fields list_all_iff)
next
  case Teardown
  with assms pending_cleanup(1) [of w] show ?thesis
    by (auto simp: list_all_iff print_cleanup_def split: option.splits)
qed

lemma no_listener_run:
  assumes "\<not> afterprint_listener w"
    and "list_all (\<lambda>(i, due, cb). due \<le> T) (pending_onPrinted w)"
  shows "\<not> afterprint_listener (print_run es w) \<and>
         list_all (\<lambda>(i, due, cb). due \<le> T) (pending_onPrinted (print_run es w))"
proof (induction es rule: rev_induct)
  case Nil
  with assms show ?case by (simp add: print_run_def)
next
  case (snoc e es)
  then show ?case unfolding print_run_snoc by (intro no_listener_step) auto
qed

lemma after_signal:
  assumes "timers_ahead w"
  shows "\<not> afterprint_listener (print_step AfterPrint w) \<and>
         list_all (\<lambda>(i, due, cb). due \<le> now w + 100)
           (pending_onPrinted (print_step AfterPrint w))"
proof (cases "afterprint_listener w")
  case True
  have "\<not> afterprint_listener (handleAfterPrint w)"
    by (simp add: handleAfterPrint_def setTimeout_def)
  moreover from assms
  have "list_all (\<lambda>(i, due, cb). due \<le> now w + 100) (pending_onPrinted (handleAfterPrint w))"
    by (simp add: timers_ahead_def pending_handleAfterPrint)
  ultimately show ?thesis using True by simp
next
  case False
  with assms show ?thesis by (simp add: timers_ahead_def)
qed

lemma settled:
  assumes a: "timers_ahead w"
    and n: "\<not> afterprint_listener w"
    and b: "list_all (\<lambda>(i, due, cb). due \<le> T) (pending_onPrinted w)"
    and t: "T \<le> now w + elapsed es"
  shows "pending_onPrinted (print_run es w) = [] \<and> \<not> afterprint_listener (print_run es w)"
proof -
  let ?w = "print_run es w"
  from a have "timers_ahead ?w" by (rule timers_ahead_run)
  then have "list_all (\<lambda>(i, due, cb). now ?w < due) (pending_onPrinted ?w)"
    by (auto simp: timers_ahead_def pending_onPrinted_def list_all_iff)
  moreover from no_listener_run [OF n b, of es]
  have l: "\<not> afterprint_listener ?w"
    and "list_all (\<lambda>(i, due, cb). due \<le> T) (pending_onPrinted ?w)"
    by auto
  moreover have "T \<le> now ?w" using t by (simp add: now_run)
  ultimately have "x \<notin> set (pending_onPrinted ?w)" for x
  proof -
    assume 1: "list_all (\<lambda>(i, due, cb). now ?w < due) (pending_onPrinted ?w)"
      and 2: "list_all (\<lambda>(i, due, cb). due \<le> T) (pending_onPrinted ?w)"
      and 3: "T \<le> now ?w"
    obtain i due cb where x: "x = (i, due, cb)" by (cases x)
    show ?thesis
    proof
      assume "x \<in> set (pending_onPrinted ?w)"
      with 1 2 x have "now ?w < due" "due \<le> T" by (auto simp: list_all_iff)
      with 3 show False by simp
    qed
  qed
  then have "pending_onPrinted ?w = []" by (cases "pending_onPrinted ?w") auto
  with l show ?thesis by simp
qed

lemma onPrinted_calls_step: "onPrinted_calls w \<le> onPrinted_calls (print_step e w)"
  by (cases e)
     (simp_all add: elapse_onPrinted handleAfterPrint_def setTimeout_def print_cleanup_def
        clearTimeout_def split: option.splits)

lemma onPrinted_calls_run: "onPrinted_calls w \<le> onPrinted_calls (print_run es w)"
proof (induction es rule: rev_induct)
  case Nil
  then show ?case by (simp add: print_run_def)
next
  case (snoc e es)
  have "onPrinted_calls (print_run es w) \<le> onPrinted_calls (print_step e (print_run es w))"
    by (rule onPrinted_calls_step)
  with snoc show ?case by (simp add: print_run_snoc)
qed

text \<open>
  Claim C6. In download mode, once the load is complete, the print-finished signal has
  been raised and the delay of 100 ms has passed without a teardown, \<open>onPrinted\<close> has
  been called exactly once, and that stays so whatever follows: the signal may be raised
  any number of times before, in between and afterwards, because the listener removes
  itself on the first signal.
\<close>

theorem onPrinted_exactly_once:
  assumes "Teardown \<notin> set before" and "Teardown \<notin> set after"
    and "100 \<le> elapsed after"
  shows "onPrinted_calls
           (print_run (before @ AfterPrint # after @ rest) (download_mounted t)) = 1"
proof -
  let ?a = "print_run before (download_mounted t)"
  let ?b = "print_step AfterPrint ?a"
  let ?c = "print_run after ?b"
  let ?d = "print_run rest ?c"
  have run: "print_run (before @ AfterPrint # after) (download_mounted t) = ?c"
    by (simp add: print_run_def)
  have all: "print_run (before @ AfterPrint # after @ rest) (download_mounted t) = ?d"
    by (simp add: print_run_def)
  have a0: "timers_ahead ?a" using timers_ahead_mounted by (rule timers_ahead_run)
  then have a1: "timers_ahead ?b" by (rule timers_ahead_step)
  have n1: "now ?b = now ?a"
    by (simp add: handleAfterPrint_def setTimeout_def)
  from after_signal [OF a0]
  have l1: "\<not> afterprint_listener ?b"
    and b1: "list_all (\<lambda>(i, due, cb). due \<le> now ?a + 100) (pending_onPrinted ?b)"
    by auto
  have "now ?a + 100 \<le> now ?b + elapsed after" using assms(3) n1 by simp
  with a1 l1 b1 have fin: "pending_onPrinted ?c = [] \<and> \<not> afterprint_listener ?c"
    by (rule settled)
  from assms(1,2) have "Teardown \<notin> set (before @ AfterPrint # after)" by simp
  then have "one_shot_count (print_run (before @ AfterPrint # after) (download_mounted t))
               = one_shot_count (download_mounted t)"
    by (rule one_shot_run_eq)
  then have one: "one_shot_count ?c = 1" by (simp add: run one_shot_mounted)
  with fin have c: "onPrinted_calls ?c = 1" by (simp add: one_shot_count_def)
  have "one_shot_count ?d \<le> one_shot_count ?c" by (rule one_shot_run_le)
  with one have "onPrinted_calls ?d \<le> 1" by (simp add: one_shot_count_def)
  moreover have "onPrinted_calls ?c \<le> onPrinted_calls ?d" by (rule onPrinted_calls_run)
  ultimately show ?thesis using c by (simp add: all)
qed

text \<open>
  The signal raised four times, twice before the delay has passed and twice after the
  callback.
\<close>

theorem onPrinted_exactly_once_witness:
  "Teardown \<notin> set [Elapse 300] \<and>
   Teardown \<notin> set [AfterPrint, Elapse 100] \<and>
   100 \<le> elapsed [AfterPrint, Elapse 100] \<and>
   onPrinted_calls
     (print_run ([Elapse 300] @ AfterPrint # [AfterPrint, Elapse 100]
                   @ [AfterPrint, Teardown, Elapse 500, AfterPrint])
        (download_mounted 0)) = 1"
proof -
  have h1: "Teardown \<notin> set [Elapse 300]" by simp
  have h2: "Teardown \<notin> set [AfterPrint, Elapse 100]" by simp
  have h3: "100 \<le> elapsed [AfterPrint, Elapse 100]" by simp
  from onPrinted_exactly_once [OF h1 h2 h3, of "[AfterPrint, Teardown, Elapse 500, AfterPrint]" 0]
       h1 h2 h3
  show ?thesis by simp
qed

text \<open>Never more than once, whatever happens.\<close>

lemma onPrinted_at_most_once: "onPrinted_calls (print_run es (download_mounted t)) \<le> 1"
proof -
  have "one_shot_count (print_run es (download_mounted t)) \<le> one_shot_count (download_mounted t)"
    by (rule one_shot_run_le)
  then have "one_shot_count (print_run es (download_mounted t)) \<le> 1"
    by (simp add: one_shot_mounted)
  then show ?thesis by (simp add: one_shot_count_def)
qed

subsection \<open>Teardown\<close>

text \<open>
  Torn down before the signal: the listener and the print timer are gone, and the
  callback never fires.
\<close>

lemma listener_kept:
  "AfterPrint \<notin> set es \<Longrightarrow> Teardown \<notin> set es
   \<Longrightarrow> afterprint_listener (print_run es (download_mounted t))
       \<and> printTimer (print_run es (download_mounted t)) = Some 0"
proof (induction es rule: rev_induct)
  case Nil
  then show ?case
    by (simp add: print_run_def download_mounted_def print_effect_def setTimeout_def
          fresh_window_def)
next
  case (snoc e es)
  then show ?case by (cases e) (simp_all add: print_run_snoc elapse_fields)
qed

lemma teardown_before_signal:
  assumes "AfterPrint \<notin> set before" and "Teardown \<notin> set before"
  shows "onPrinted_calls (print_run (before @ Teardown # after) (download_mounted t)) = 0"
proof -
  let ?a = "print_run before (download_mounted t)"
  let ?b = "print_step Teardown ?a"
  from assms have l: "afterprint_listener ?a" and h: "printTimer ?a = Some 0"
    using listener_kept [of before t] by auto
  have "one_shot_count ?a = 1" using assms(2) by (simp add: one_shot_run_eq one_shot_mounted)
  with l have z: "pending_onPrinted ?a = []" "onPrinted_calls ?a = 0"
    by (simp_all add: one_shot_count_def)
  from z(1) pending_cleanup(1) [of ?a] have p: "pending_onPrinted ?b = []" by simp
  have c: "onPrinted_calls ?b = 0" using z(2) h
    by (simp add: print_cleanup_def clearTimeout_def)
  have n: "\<not> afterprint_listener ?b" using h by (simp add: print_cleanup_def)
  have "one_shot_count (print_run after ?b) \<le> one_shot_count ?b" by (rule one_shot_run_le)
  with p c n have "onPrinted_calls (print_run after ?b) = 0"
    by (simp add: one_shot_count_def)
  then show ?thesis by (simp add: print_run_def)
qed

text \<open>
  Claim C7 fails on the code. The cleanup clears the print timer and removes the listener,
  but the timer set by \<open>handleAfterPrint\<close> is not kept anywhere and is never cleared:
  when the component is torn down within 100 ms after the signal, that timer is still
  pending after the teardown and calls \<open>onPrinted\<close> when it falls due.
\<close>

theorem onPrinted_after_teardown:
  "onPrinted_calls (print_run [Elapse 300, AfterPrint, Elapse 50, Teardown] (download_mounted 0)) = 0 \<and>
   timers (print_run [Elapse 300, AfterPrint, Elapse 50, Teardown] (download_mounted 0))
     = [(1, 400, OnPrintedCallback)] \<and>
   onPrinted_calls
     (print_run [Elapse 300, AfterPrint, Elapse 50, Teardown, Elapse 50] (download_mounted 0)) = 1"
  by code_simp

section \<open>Properties of the memo list\<close>

text \<open>A row whose memo has an invoice number in the map: both buttons are dead.\<close>

lemma invoiced_row_blocked:
  assumes "isInvoiced s x"
  shows "list_step lc c (EditClick x) s = s"
    and "list_step lc c (DeleteClick x) s = s"
    and "edit_title s x = ''Cannot edit a memo that is part of an invoice.''"
    and "delete_title s x = ''Cannot delete a memo that is part of an invoice.''"
  using assms by (simp_all add: edit_disabled_def delete_disabled_def edit_title_def delete_title_def)

text \<open>
  Such an invoice is what the form sends to the store when the number generator has
  failed on load: the draft keeps the empty number it starts with and Save does not ask
  for one.
\<close>

lemma draft_saved_without_number:
  "all_enabled numberless_ledger
     [CustomerChange ''Acme'', MemoSelection ''M1'' True, SaveClick]
     (mount numberless_ledger ''2024-03-01'' None) \<and>
   writes (run_events numberless_ledger
             [CustomerChange ''Acme'', MemoSelection ''M1'' True, SaveClick]
             (mount numberless_ledger ''2024-03-01'' None))
     = [AddInvoice \<lparr>invoice_id = None, invoice_no = Some [],
          invoice_date = Some ''2024-03-01'', customer_name = Some ''Acme'',
          memo_nos = Some [''M1''], total_amount = Some (Num 500),
          amount_paid = Some (Num 0), balance = Some (Num 500), status = Some Draft\<rparr>]"
  by code_simp

text \<open>
  Claim C8 fails on the code. The row tests the truthiness of the map's entry, not its
  presence: a memo of an invoice whose number is the empty string is in the invoicing map
  and yet its Edit and Delete buttons are enabled, with the plain titles, and Delete
  followed by the confirmation asks the store to delete the memo.
\<close>

theorem unnumbered_invoice_memo_editable:
  "invoiceMap unnumbered_list ''M1'' = Some (Some []) \<and>
   row_rendered unnumbered_list memo_M1 \<and>
   \<not> edit_disabled unnumbered_list memo_M1 \<and>
   \<not> delete_disabled unnumbered_list memo_M1 \<and>
   delete_title unnumbered_list memo_M1 = ''Delete Memo'' \<and>
   onEditMemo_calls (list_step (\<lambda>a b. 0) (ledger unnumbered_store) (EditClick memo_M1)
      unnumbered_list) = [''M1''] \<and>
   deleteMemo_calls (list_step (\<lambda>a b. 0) (ledger unnumbered_store) ConfirmDeleteClick
      (list_step (\<lambda>a b. 0) (ledger unnumbered_store) (DeleteClick memo_M1) unnumbered_list))
     = [''M1'']"
  by code_simp

end
